theory Spec2Isabelle
  imports Main "HOL-Library.List_Lexorder" "HOL-Library.Multiset"
begin

section \<open>Python values\<close>

text \<open>
  A Python \<open>str\<close> is a sequence of Unicode code points, so it is modelled as a list of
  natural numbers; \<open>str\<close> turns an ASCII literal into that form.
\<close>

type_synonym pystr = "nat list"

definition str :: "string \<Rightarrow> pystr" where
  "str s = map of_char s"

text \<open>The exception classes the two modules can raise; messages are not modelled.\<close>

datatype error =
  KeyError | TypeError | IndexError | ValueError | AttributeError | StopIteration
  | RequestException | QBittorrentRPCException

text \<open>
  The dynamically typed values the code handles: what \<open>response.json()\<close> returns, the
  parameter documents of the RPC layer and raw file content. A \<open>dict\<close> keeps its
  insertion order, so it is an association list; all keys in this code are strings.
\<close>

datatype pyval =
  PNone
  | PBool bool
  | PInt int
  | PStr pystr
  | PBytes "nat list"
  | PList "pyval list"
  | PDict "(pystr \<times> pyval) list"

text \<open>Truth value of an object, as \<open>if x:\<close> and \<open>not x\<close> take it.\<close>

fun truthy :: "pyval \<Rightarrow> bool" where
  "truthy PNone = False"
| "truthy (PBool b) = b"
| "truthy (PInt n) = (n \<noteq> 0)"
| "truthy (PStr s) = (s \<noteq> [])"
| "truthy (PBytes b) = (b \<noteq> [])"
| "truthy (PList xs) = (xs \<noteq> [])"
| "truthy (PDict d) = (d \<noteq> [])"

text \<open>\<open>obj[key]\<close> with a string key: only a \<open>dict\<close> can be indexed that way.\<close>

fun subscript :: "pyval \<Rightarrow> pystr \<Rightarrow> error + pyval" where
  "subscript (PDict d) key = (case map_of d key of None \<Rightarrow> Inl KeyError | Some v \<Rightarrow> Inr v)"
| "subscript other key = Inl TypeError"

text \<open>\<open>obj.get(key, default)\<close>: a method of \<open>dict\<close> only.\<close>

fun dict_get :: "pyval \<Rightarrow> pystr \<Rightarrow> pyval \<Rightarrow> error + pyval" where
  "dict_get (PDict d) key dflt = (case map_of d key of None \<Rightarrow> Inr dflt | Some v \<Rightarrow> Inr v)"
| "dict_get other key dflt = Inl AttributeError"

text \<open>The items a \<open>for\<close> loop draws from an object.\<close>

fun iterate :: "pyval \<Rightarrow> error + pyval list" where
  "iterate (PList xs) = Inr xs"
| "iterate (PDict d) = Inr (map (\<lambda>kv. PStr (fst kv)) d)"
| "iterate (PStr s) = Inr (map (\<lambda>c. PStr [c]) s)"
| "iterate (PBytes b) = Inr (map (\<lambda>c. PInt (int c)) b)"
| "iterate other = Inl TypeError"

text \<open>\<open>d[k] = v\<close> on an insertion-ordered \<open>dict\<close>: an existing key keeps its place.\<close>

fun setitem :: "('k \<times> 'v) list \<Rightarrow> 'k \<Rightarrow> 'v \<Rightarrow> ('k \<times> 'v) list" where
  "setitem [] k v = [(k, v)]"
| "setitem (kv # d) k v = (if fst kv = k then (k, v) # d else kv # setitem d k v)"

text \<open>A \<open>for\<close> loop whose body updates one variable and may raise.\<close>

fun foldE :: "('a \<Rightarrow> 's \<Rightarrow> error + 's) \<Rightarrow> 'a list \<Rightarrow> 's \<Rightarrow> error + 's" where
  "foldE f [] s = Inr s"
| "foldE f (x # xs) s = (case f x s of Inl e \<Rightarrow> Inl e | Inr s' \<Rightarrow> foldE f xs s')"

text \<open>\<open>map\<close> with a function that may raise, consumed from left to right.\<close>

fun mapE :: "('a \<Rightarrow> error + 'b) \<Rightarrow> 'a list \<Rightarrow> error + 'b list" where
  "mapE f [] = Inr []"
| "mapE f (x # xs) =
     (case f x of Inl e \<Rightarrow> Inl e
      | Inr y \<Rightarrow> (case mapE f xs of Inl e \<Rightarrow> Inl e | Inr ys \<Rightarrow> Inr (y # ys)))"

subsection \<open>Strings\<close>

text \<open>
  Python's character tables and integer parser are exact here on ASCII text. What they do
  on other text belongs to the interpreter's Unicode database, which is a parameter:
  \<open>uni_isalnum\<close> and \<open>uni_isdecimal\<close> classify a code point from 128 on,
  \<open>uni_lower\<close> is \<open>str.lower\<close> on a string that has such a code point,
  \<open>uni_int\<close> is \<open>int\<close> on a string that is not plain ASCII digits and has no ASCII
  character foreign to integer literals, and \<open>int_max_str_digits\<close> is the interpreter's
  limit on the length of a decimal literal (0: no limit).
\<close>

record pyrt =
  uni_isalnum :: "nat \<Rightarrow> bool"
  uni_isdecimal :: "nat \<Rightarrow> bool"
  uni_lower :: "pystr \<Rightarrow> pystr"
  uni_int :: "pystr \<Rightarrow> int option"
  int_max_str_digits :: nat

definition ascii_digit :: "nat \<Rightarrow> bool" where
  "ascii_digit c = (48 \<le> c \<and> c \<le> 57)"

definition ascii_alnum :: "nat \<Rightarrow> bool" where
  "ascii_alnum c = (ascii_digit c \<or> (65 \<le> c \<and> c \<le> 90) \<or> (97 \<le> c \<and> c \<le> 122))"

definition ascii_lower :: "nat \<Rightarrow> nat" where
  "ascii_lower c = (if 65 \<le> c \<and> c \<le> 90 then c + 32 else c)"

definition isalnum :: "pyrt \<Rightarrow> nat \<Rightarrow> bool" where
  "isalnum R c = (if c < 128 then ascii_alnum c else uni_isalnum R c)"

definition isdecimal :: "pyrt \<Rightarrow> nat \<Rightarrow> bool" where
  "isdecimal R c = (if c < 128 then ascii_digit c else uni_isdecimal R c)"

text \<open>\<open>str.lower\<close>.\<close>

definition lower :: "pyrt \<Rightarrow> pystr \<Rightarrow> pystr" where
  "lower R s = (if list_all (\<lambda>c. c < 128) s then map ascii_lower s else uni_lower R s)"

text \<open>\<open>str.split(sep)\<close> with a one-character separator.\<close>

fun str_split :: "nat \<Rightarrow> pystr \<Rightarrow> pystr list" where
  "str_split sep [] = [[]]"
| "str_split sep (c # cs) =
     (if c = sep then [] # str_split sep cs
      else (c # hd (str_split sep cs)) # tl (str_split sep cs))"

text \<open>\<open>str.replace(old, new)\<close>: every occurrence, left to right, without overlap.\<close>

fun replace :: "pystr \<Rightarrow> pystr \<Rightarrow> pystr \<Rightarrow> pystr" where
  "replace old new [] = (if old = [] then new else [])"
| "replace old new (c # cs) =
     (if old = [] then new @ c # replace old new cs
      else if take (length old) (c # cs) = old
        then new @ replace old new (drop (length old - 1) cs)
      else c # replace old new cs)"

text \<open>
  \<open>int(s)\<close> in base 10. A string of ASCII digits is read as it stands, unless it is
  longer than the interpreter's limit. An ASCII character other than a digit, a sign, an
  underscore and white space makes the literal invalid. Signs, underscores, surrounding
  white space and other scripts' digits are the interpreter's business.
\<close>

definition int_literal_char :: "nat \<Rightarrow> bool" where
  "int_literal_char c = (ascii_digit c \<or> c \<in> set [9, 10, 11, 12, 13, 32, 43, 45, 95])"

definition py_int :: "pyrt \<Rightarrow> pystr \<Rightarrow> error + int" where
  "py_int R s =
     (if s \<noteq> [] \<and> list_all ascii_digit s then
        (if 0 < int_max_str_digits R \<and> int_max_str_digits R < length s then Inl ValueError
         else Inr (foldl (\<lambda>a c. 10 * a + int (c - 48)) 0 s))
      else if s = [] \<or> list_ex (\<lambda>c. c < 127 \<and> \<not> int_literal_char c) s then Inl ValueError
      else (case uni_int R s of None \<Rightarrow> Inl ValueError | Some i \<Rightarrow> Inr i))"

section \<open>The anilibria tracker (torrt/trackers/anilibria.py)\<close>

text \<open>
  \<open>REGEX_NON_WORD = re.compile(r'[\W_]')\<close>: a character that is not alphanumeric, or
  the underscore. \<open>sub('', s)\<close> deletes every match.
\<close>

definition REGEX_NON_WORD :: "pyrt \<Rightarrow> nat \<Rightarrow> bool" where
  "REGEX_NON_WORD R c = (c = 95 \<or> \<not> (isalnum R c \<or> c = 95))"

definition REGEX_NON_WORD_sub :: "pyrt \<Rightarrow> pystr \<Rightarrow> pystr" where
  "REGEX_NON_WORD_sub R s = filter (\<lambda>c. \<not> REGEX_NON_WORD R c) s"

text \<open>
  \<open>REGEX_RANGE = re.compile(r'\d+-\d+')\<close> and its \<open>match\<close>, which anchors the pattern
  at the start of the string only.
\<close>

definition REGEX_RANGE_match :: "pyrt \<Rightarrow> pystr \<Rightarrow> bool" where
  "REGEX_RANGE_match R s =
     (takeWhile (isdecimal R) s \<noteq> [] \<and>
      (case dropWhile (isdecimal R) s of
         c # d # rest \<Rightarrow> c = 45 \<and> isdecimal R d
       | other \<Rightarrow> False))"

definition HOST :: pystr where
  "HOST = str ''https://www.anilibria.tv''"

definition API_URL :: pystr where
  "API_URL = HOST @ str ''/public/api/index.php''"

definition extract_release_code :: "pystr \<Rightarrow> pystr" where
  "extract_release_code url = replace (str ''.html'') [] (replace (HOST @ str ''/release/'') [] url)"

definition sanitize_quality :: "pyrt \<Rightarrow> pystr option \<Rightarrow> pystr" where
  "sanitize_quality R quality_str =
     (case quality_str of
        None \<Rightarrow> []
      | Some s \<Rightarrow> if s \<noteq> [] then lower R (REGEX_NON_WORD_sub R s) else [])"

text \<open>
  \<open>sanitize_quality\<close> as it is called on a value of the tracker's JSON: a false value
  takes the \<open>return ''\<close> branch, and \<open>re.sub\<close> refuses a true value that is no string.
\<close>

definition sanitize_quality_of :: "pyrt \<Rightarrow> pyval \<Rightarrow> error + pystr" where
  "sanitize_quality_of R v =
     (case v of
        PStr s \<Rightarrow> Inr (sanitize_quality R (Some s))
      | PNone \<Rightarrow> Inr (sanitize_quality R None)
      | other \<Rightarrow> if truthy other then Inl TypeError else Inr [])"

definition to_tuple :: "pyrt \<Rightarrow> pystr \<Rightarrow> error + int list" where
  "to_tuple R range_str = mapE (py_int R) (str_split 45 range_str)"

text \<open>\<open>series2torrents[key]\<close> on the \<open>defaultdict(list)\<close>.\<close>

definition getdefault :: "('k \<times> 'v list) list \<Rightarrow> 'k \<Rightarrow> 'v list" where
  "getdefault d k = (case map_of d k of None \<Rightarrow> [] | Some vs \<Rightarrow> vs)"

text \<open>The body of the first loop of \<open>find_available_qualities\<close> (lines 95 to 97).\<close>

definition series2torrents_step ::
  "pyrt \<Rightarrow> pyval \<Rightarrow> (pystr \<times> pyval list) list \<Rightarrow> error + (pystr \<times> pyval list) list" where
  "series2torrents_step R torrent series2torrents =
     (case subscript torrent (str ''series'') of
        Inl e \<Rightarrow> Inl e
      | Inr (PStr series) \<Rightarrow>
          if REGEX_RANGE_match R series
          then Inr (setitem series2torrents series (getdefault series2torrents series @ [torrent]))
          else Inr series2torrents
      | Inr other \<Rightarrow> Inl TypeError)"

text \<open>
  \<open>sorted(series2torrents.keys(), key=self.to_tuple, reverse=True)\<close> (line 100): the keys
  are computed first, in order; the sort is stable, and \<open>reverse=True\<close> keeps it stable by
  reversing the list before and after an ascending sort. Tuples of integers compare
  lexicographically, as lists do.
\<close>

definition sorted_reverse :: "('a \<times> 'k::linorder) list \<Rightarrow> 'a list" where
  "sorted_reverse decorated = map fst (rev (sort_key snd (rev decorated)))"

definition sorted_series :: "pyrt \<Rightarrow> (pystr \<times> pyval list) list \<Rightarrow> error + pystr list" where
  "sorted_series R series2torrents =
     (case mapE (to_tuple R) (map fst series2torrents) of
        Inl e \<Rightarrow> Inl e
      | Inr tuples \<Rightarrow> Inr (sorted_reverse (zip (map fst series2torrents) tuples)))"

text \<open>\<open>sorted_series[0]\<close>: the series whose torrents are taken.\<close>

definition selected_series :: "pyrt \<Rightarrow> (pystr \<times> pyval list) list \<Rightarrow> error + pystr" where
  "selected_series R series2torrents =
     (case sorted_series R series2torrents of
        Inl e \<Rightarrow> Inl e
      | Inr [] \<Rightarrow> Inl IndexError
      | Inr (series # rest) \<Rightarrow> Inr series)"

text \<open>The body of the second loop (lines 102 to 104).\<close>

definition available_qualities_step ::
  "pyrt \<Rightarrow> pyval \<Rightarrow> (pystr \<times> pystr) list \<Rightarrow> error + (pystr \<times> pystr) list" where
  "available_qualities_step R torrent available_qualities =
     (case subscript torrent (str ''quality'') of
        Inl e \<Rightarrow> Inl e
      | Inr q \<Rightarrow>
          (case sanitize_quality_of R q of
             Inl e \<Rightarrow> Inl e
           | Inr quality \<Rightarrow>
               (case subscript torrent (str ''url'') of
                  Inl e \<Rightarrow> Inl e
                | Inr (PStr url) \<Rightarrow> Inr (setitem available_qualities quality (HOST @ url))
                | Inr other \<Rightarrow> Inl TypeError)))"

text \<open>
  \<open>find_available_qualities\<close> from line 87 on, once the tracker's JSON is there.
\<close>

definition qualities_of_json :: "pyrt \<Rightarrow> pyval \<Rightarrow> error + (pystr \<times> pystr) list" where
  "qualities_of_json R json =
     (case dict_get json (str ''status'') (PBool False) of
        Inl e \<Rightarrow> Inl e
      | Inr status \<Rightarrow>
          if truthy status then
            (case subscript json (str ''data'') of
               Inl e \<Rightarrow> Inl e
             | Inr data \<Rightarrow>
                 (case subscript data (str ''torrents'') of
                    Inl e \<Rightarrow> Inl e
                  | Inr torrents \<Rightarrow>
                      (case iterate torrents of
                         Inl e \<Rightarrow> Inl e
                       | Inr ts \<Rightarrow>
                           (case foldE (series2torrents_step R) ts [] of
                              Inl e \<Rightarrow> Inl e
                            | Inr series2torrents \<Rightarrow>
                                (case selected_series R series2torrents of
                                   Inl e \<Rightarrow> Inl e
                                 | Inr series \<Rightarrow>
                                     foldE (available_qualities_step R)
                                       (getdefault series2torrents series) [])))))
          else Inr [])"

text \<open>
  The tracker's answer comes through \<open>get_response\<close> of the base class and
  \<open>response.json()\<close>; both are outside this module, so \<open>fetch\<close>, which stands for the
  two together, is a parameter: it takes the URL and the query and gives the parsed JSON,
  or raises.
\<close>

type_synonym fetch = "pystr \<Rightarrow> (pystr \<times> pystr) list \<Rightarrow> error + pyval"

definition find_available_qualities ::
  "pyrt \<Rightarrow> fetch \<Rightarrow> pystr \<Rightarrow> error + (pystr \<times> pystr) list" where
  "find_available_qualities R fetch url =
     (case fetch API_URL [(str ''query'', str ''release''), (str ''code'', extract_release_code url)] of
        Inl e \<Rightarrow> Inl e
      | Inr json \<Rightarrow> qualities_of_json R json)"

text \<open>The loop of lines 49 to 53: the preferences, sanitized, without repetition.\<close>

fun quality_prefs_loop :: "pyrt \<Rightarrow> pystr list \<Rightarrow> pystr list \<Rightarrow> pystr list" where
  "quality_prefs_loop R [] quality_prefs = quality_prefs"
| "quality_prefs_loop R (pref # prefs) quality_prefs =
     quality_prefs_loop R prefs
       (if sanitize_quality R (Some pref) \<in> set quality_prefs then quality_prefs
        else quality_prefs @ [sanitize_quality R (Some pref)])"

text \<open>Lines 47 to 70: the choice among the qualities on offer.\<close>

definition choose_link :: "pyrt \<Rightarrow> pystr list \<Rightarrow> (pystr \<times> pystr) list \<Rightarrow> error + pystr" where
  "choose_link R prefs available_qualities =
     (case filter (\<lambda>quality. quality \<in> set (map fst available_qualities))
             (quality_prefs_loop R prefs []) of
        [] \<Rightarrow>
          (case available_qualities of
             [] \<Rightarrow> Inl StopIteration
           | item # rest \<Rightarrow> Inr (snd item))
      | target_quality # rest \<Rightarrow>
          (case map_of available_qualities target_quality of
             None \<Rightarrow> Inl KeyError
           | Some link \<Rightarrow> Inr link))"

definition get_download_link :: "pyrt \<Rightarrow> fetch \<Rightarrow> pystr list \<Rightarrow> pystr \<Rightarrow> error + pystr" where
  "get_download_link R fetch prefs url =
     (case find_available_qualities R fetch url of
        Inl e \<Rightarrow> Inl e
      | Inr available_qualities \<Rightarrow>
          if available_qualities \<noteq> [] then choose_link R prefs available_qualities
          else Inr [])"

text \<open>The constructor's default for \<open>quality_prefs\<close>.\<close>

definition default_quality_prefs :: "pystr list" where
  "default_quality_prefs = [str ''HDTVRip 1080p'', str ''HDTVRip 720p'', str ''WEBRip 720p'']"

section \<open>The qBittorrent RPC (torrt/rpc/qbittorrent.py)\<close>

text \<open>
  What the module hands to \<open>requests.get\<close> or \<open>requests.post\<close>: the function chosen, the
  URL, and the keyword arguments \<open>cookies\<close>, \<open>data\<close> and \<open>files\<close>, each absent or present.
\<close>

datatype http_method = GET | POST

record request =
  req_method :: http_method
  req_url :: pystr
  req_cookies :: "(pystr \<times> pystr) list option"
  req_data :: "pyval option"
  req_files :: "(pystr \<times> pyval) list option"

text \<open>
  What the module reads of a \<open>Response\<close>: \<open>status_code\<close>, \<open>text\<close>, \<open>cookies\<close> (a cookie
  jar, which the code also compares with \<open>None\<close>) and the outcome of \<open>json()\<close>.
\<close>

record response =
  status_code :: int
  resp_text :: pystr
  resp_cookies :: "(pystr \<times> pystr) list option"
  resp_json :: "error + pyval"

text \<open>
  The run of a session is observed as a trace: each call of \<open>login\<close> and each request
  handed to the transport, in order.
\<close>

datatype event = LoginCall | Http request

text \<open>
  The world outside the module is a parameter: \<open>http\<close> is the transport, which answers a
  request (given all that happened before) with a response or raises; \<open>urljoin\<close> is
  \<open>urllib.parse.urljoin\<close>; \<open>format\<close> is the string operator \<open>%\<close> with one right operand.
\<close>

record env =
  http :: "event list \<Rightarrow> request \<Rightarrow> error + response"
  urljoin :: "pystr \<Rightarrow> pystr \<Rightarrow> error + pystr"
  format :: "pystr \<Rightarrow> pyval \<Rightarrow> error + pystr"

text \<open>The attributes of a \<open>QBittorrentRPC\<close> object.\<close>

record rpc =
  cookies :: "(pystr \<times> pystr) list"
  user :: pystr
  password :: pystr
  enabled :: bool
  host :: pystr
  port :: int
  url :: pystr

record state =
  session :: rpc
  trace :: "event list"

definition api_map :: "(pystr \<times> pystr) list" where
  "api_map =
     [(str ''login'', str ''login''),
      (str ''api_version_path'', str ''version/api''),
      (str ''add_torrent'', str ''command/upload''),
      (str ''rem_torrent'', str ''command/delete''),
      (str ''rem_torrent_with_data'', str ''command/deletePerm''),
      (str ''get_torrent'', str ''query/propertiesGeneral/%s''),
      (str ''get_torrents'', str ''query/torrents'')]"

text \<open>\<open>str(n)\<close> for an integer, as \<open>%s\<close> prints the port.\<close>

fun str_nat :: "nat \<Rightarrow> pystr" where
  "str_nat n = (if n < 10 then [48 + n] else str_nat (n div 10) @ [48 + n mod 10])"

definition str_int :: "int \<Rightarrow> pystr" where
  "str_int i = (if i < 0 then 45 # str_nat (nat (- i)) else str_nat (nat i))"

text \<open>\<open>__init__\<close>, with the arguments in the order of the signature.\<close>

definition init :: "pystr option \<Rightarrow> pystr \<Rightarrow> int \<Rightarrow> pystr \<Rightarrow> pystr \<Rightarrow> bool \<Rightarrow> rpc" where
  "init url0 host0 port0 user0 password0 enabled0 =
     \<lparr>cookies = [], user = user0, password = password0, enabled = enabled0,
      host = host0, port = port0,
      url = (case url0 of
               Some u \<Rightarrow> u
             | None \<Rightarrow> str ''http://'' @ host0 @ str '':'' @ str_int port0 @ str ''/'')\<rparr>"

definition build_params :: "pyval \<Rightarrow> (pystr \<times> pyval) list option \<Rightarrow> (pystr \<times> pyval) list" where
  "build_params action params =
     (case params of
        None \<Rightarrow> [(str ''action'', action)]
      | Some ps \<Rightarrow> fold (\<lambda>kv document. setitem document (fst kv) (snd kv)) ps [(str ''action'', action)])"

text \<open>
  \<open>get_request_url\<close>. A key of \<open>api_map\<close> is a string; a list or a dict cannot be hashed,
  anything else is simply not there.
\<close>

definition get_request_url :: "env \<Rightarrow> rpc \<Rightarrow> (pystr \<times> pyval) list \<Rightarrow> error + pystr" where
  "get_request_url E self params =
     (case map_of params (str ''action'') of
        None \<Rightarrow> Inl KeyError
      | Some (PStr key) \<Rightarrow>
          (case map_of api_map key of
             None \<Rightarrow> Inl KeyError
           | Some url_segment \<Rightarrow>
               (case map_of params (str ''action_params'') of
                  None \<Rightarrow> urljoin E (url self) url_segment
                | Some action_params \<Rightarrow>
                    (case format E url_segment action_params of
                       Inl e \<Rightarrow> Inl e
                     | Inr segment \<Rightarrow> urljoin E (url self) segment)))
      | Some (PList xs) \<Rightarrow> Inl TypeError
      | Some (PDict d) \<Rightarrow> Inl TypeError
      | Some other \<Rightarrow> Inl KeyError)"

text \<open>
  Lines 109 to 123 of \<open>query\<close>: the function and the keyword arguments. GET is the
  default; a \<open>data\<close> entry of the document or a \<open>files\<close> argument makes it POST.
\<close>

definition build_request ::
  "env \<Rightarrow> rpc \<Rightarrow> (pystr \<times> pyval) list \<Rightarrow> (pystr \<times> pyval) list option \<Rightarrow> error + request" where
  "build_request E self data files =
     (case get_request_url E self data of
        Inl e \<Rightarrow> Inl e
      | Inr u \<Rightarrow>
          Inr \<lparr>req_method =
                 (if files \<noteq> None then POST
                  else if map_of data (str ''data'') \<noteq> None then POST
                  else GET),
               req_url = u,
               req_cookies = Some (cookies self),
               req_data = map_of data (str ''data''),
               req_files = files\<rparr>)"

text \<open>
  \<open>query\<close>. The log line reads \<open>data['action']\<close> before the \<open>try\<close>; every failure inside
  the \<open>try\<close> leaves as a \<open>QBittorrentRPCException\<close>.
\<close>

definition query ::
  "env \<Rightarrow> (pystr \<times> pyval) list \<Rightarrow> (pystr \<times> pyval) list option \<Rightarrow> state
     \<Rightarrow> (error + response) \<times> state" where
  "query E data files st =
     (case map_of data (str ''action'') of
        None \<Rightarrow> (Inl KeyError, st)
      | Some action \<Rightarrow>
          (case build_request E (session st) data files of
             Inl e \<Rightarrow> (Inl QBittorrentRPCException, st)
           | Inr request \<Rightarrow>
               (case http E (trace st) request of
                  Inl e \<Rightarrow> (Inl QBittorrentRPCException, st\<lparr>trace := trace st @ [Http request]\<rparr>)
                | Inr response \<Rightarrow>
                    if status_code response \<noteq> 200
                    then (Inl QBittorrentRPCException, st\<lparr>trace := trace st @ [Http request]\<rparr>)
                    else (Inr response, st\<lparr>trace := trace st @ [Http request]\<rparr>))))"

text \<open>The document \<open>login\<close> sends.\<close>

definition login_params :: "rpc \<Rightarrow> (pystr \<times> pyval) list" where
  "login_params self =
     build_params (PStr (str ''login''))
       (Some [(str ''data'',
               PDict [(str ''username'', PStr (user self)), (str ''password'', PStr (password self))])])"

text \<open>
  \<open>login\<close>. The condition \<open>result.text != 'Ok.' or result.cookies is None\<close> is evaluated
  left to right; whatever is raised inside the \<open>try\<close> leaves as a
  \<open>QBittorrentRPCException\<close>.
\<close>

definition login :: "env \<Rightarrow> state \<Rightarrow> (error + unit) \<times> state" where
  "login E st =
     (case query E (login_params (session st)) None (st\<lparr>trace := trace st @ [LoginCall]\<rparr>) of
        (Inl e, st1) \<Rightarrow> (Inl QBittorrentRPCException, st1)
      | (Inr result, st1) \<Rightarrow>
          if resp_text result \<noteq> str ''Ok.'' then (Inl QBittorrentRPCException, st1)
          else if resp_cookies result = None then (Inl QBittorrentRPCException, st1)
          else (Inr (), st1\<lparr>session := (session st1)\<lparr>cookies := the (resp_cookies result)\<rparr>\<rparr>))"

definition auth_query ::
  "env \<Rightarrow> (pystr \<times> pyval) list \<Rightarrow> (pystr \<times> pyval) list option \<Rightarrow> state
     \<Rightarrow> (error + response) \<times> state" where
  "auth_query E data files st =
     (if cookies (session st) = [] then
        (case login E st of
           (Inl e, st1) \<Rightarrow> (Inl e, st1)
         | (Inr u, st1) \<Rightarrow> query E data files st1)
      else query E data files st)"

definition auth_query_json ::
  "env \<Rightarrow> (pystr \<times> pyval) list \<Rightarrow> (pystr \<times> pyval) list option \<Rightarrow> state
     \<Rightarrow> (error + pyval) \<times> state" where
  "auth_query_json E data files st =
     (if cookies (session st) = [] then
        (case login E st of
           (Inl e, st1) \<Rightarrow> (Inl e, st1)
         | (Inr u, st1) \<Rightarrow>
             (case query E data files st1 of
                (Inl e, st2) \<Rightarrow> (Inl e, st2)
              | (Inr response, st2) \<Rightarrow> (resp_json response, st2)))
      else
        (case query E data files st of
           (Inl e, st2) \<Rightarrow> (Inl e, st2)
         | (Inr response, st2) \<Rightarrow> (resp_json response, st2)))"

text \<open>The \<open>file_data\<close> of \<open>method_add_torrent\<close> (lines 188 to 191).\<close>

definition file_data :: "pyval \<Rightarrow> pystr option \<Rightarrow> (pystr \<times> pyval) list" where
  "file_data content download_to =
     (case download_to of
        None \<Rightarrow> [(str ''torrents'', content)]
      | Some path \<Rightarrow> setitem [(str ''torrents'', content)] (str ''savepath'') (PStr path))"

definition method_add_torrent ::
  "env \<Rightarrow> (pystr \<times> pyval) list \<Rightarrow> pystr option \<Rightarrow> (pystr \<times> pyval) list option \<Rightarrow> state
     \<Rightarrow> (error + response) \<times> state" where
  "method_add_torrent E torrent download_to params st =
     (case map_of torrent (str ''torrent'') of
        None \<Rightarrow> (Inl KeyError, st)
      | Some content \<Rightarrow>
          auth_query E (build_params (PStr (str ''add_torrent'')) None)
            (Some (file_data content download_to)) st)"

definition method_remove_torrent ::
  "env \<Rightarrow> pystr \<Rightarrow> bool \<Rightarrow> state \<Rightarrow> (error + response) \<times> state" where
  "method_remove_torrent E hash_str with_data st =
     auth_query E
       (build_params (PStr (if with_data then str ''rem_torrent_with_data'' else str ''rem_torrent''))
          (Some [(str ''data'', PDict [(str ''hashes'', PStr hash_str)])]))
       None st"

definition method_get_version :: "env \<Rightarrow> state \<Rightarrow> (error + pystr) \<times> state" where
  "method_get_version E st =
     (case auth_query E (build_params (PStr (str ''api_version_path'')) None) None st of
        (Inl e, st1) \<Rightarrow> (Inl e, st1)
      | (Inr result, st1) \<Rightarrow> (Inr (resp_text result), st1))"

definition torrent_fields_map :: "(pystr \<times> pystr) list" where
  "torrent_fields_map = [(str ''save_path'', str ''download_to'')]"

text \<open>
  \<open>normalize_field_names\<close> is a method of the base class, which is not among these
  sources, so it is a parameter: given the field map and a record it gives the record
  with its fields renamed (the original updates the record in place), or raises.
\<close>

type_synonym normalizer = "(pystr \<times> pystr) list \<Rightarrow> pyval \<Rightarrow> error + pyval"

text \<open>\<open>hashes is None or torrent_data_hash in hashes\<close>, for a list of strings.\<close>

definition hash_selected :: "pystr list option \<Rightarrow> pyval \<Rightarrow> bool" where
  "hash_selected hashes torrent_data_hash =
     (case hashes of
        None \<Rightarrow> True
      | Some hs \<Rightarrow> (case torrent_data_hash of PStr h \<Rightarrow> h \<in> set hs | other \<Rightarrow> False))"

text \<open>
  The loop of \<open>method_get_torrents\<close> (lines 164 to 182): one more \<open>auth_query_json\<close> for
  every torrent that is asked for.
\<close>

fun get_torrents_loop ::
  "env \<Rightarrow> normalizer \<Rightarrow> pystr list option \<Rightarrow> pyval list \<Rightarrow> pyval list \<Rightarrow> state
     \<Rightarrow> (error + pyval list) \<times> state" where
  "get_torrents_loop E normalize_field_names hashes [] torrents_info st = (Inr torrents_info, st)"
| "get_torrents_loop E normalize_field_names hashes (item # rest) torrents_info st =
     (case normalize_field_names torrent_fields_map item of
        Inl e \<Rightarrow> (Inl e, st)
      | Inr torrent_data \<Rightarrow>
          (case subscript torrent_data (str ''hash'') of
             Inl e \<Rightarrow> (Inl e, st)
           | Inr torrent_data_hash \<Rightarrow>
               if hash_selected hashes torrent_data_hash then
                 (case auth_query_json E
                         (build_params (PStr (str ''get_torrent''))
                            (Some [(str ''action_params'', torrent_data_hash)]))
                         None st of
                    (Inl e, st1) \<Rightarrow> (Inl e, st1)
                  | (Inr answer, st1) \<Rightarrow>
                      (case normalize_field_names torrent_fields_map answer of
                         Inl e \<Rightarrow> (Inl e, st1)
                       | Inr addition_data \<Rightarrow>
                           (case subscript torrent_data (str ''name'') of
                              Inl e \<Rightarrow> (Inl e, st1)
                            | Inr name \<Rightarrow>
                                (case subscript torrent_data (str ''download_to'') of
                                   Inl e \<Rightarrow> (Inl e, st1)
                                 | Inr download_to \<Rightarrow>
                                     (case subscript addition_data (str ''comment'') of
                                        Inl e \<Rightarrow> (Inl e, st1)
                                      | Inr comment \<Rightarrow>
                                          get_torrents_loop E normalize_field_names hashes rest
                                            (torrents_info @
                                               [PDict [(str ''hash'', torrent_data_hash),
                                                       (str ''name'', name),
                                                       (str ''download_to'', download_to),
                                                       (str ''comment'', comment)]])
                                            st1)))))
               else get_torrents_loop E normalize_field_names hashes rest torrents_info st))"

definition method_get_torrents ::
  "env \<Rightarrow> normalizer \<Rightarrow> pystr list option \<Rightarrow> state \<Rightarrow> (error + pyval list) \<times> state" where
  "method_get_torrents E normalize_field_names hashes st =
     (case auth_query_json E
             (build_params (PStr (str ''get_torrents'')) (Some [(str ''reverse'', PStr (str ''true''))]))
             None st of
        (Inl e, st1) \<Rightarrow> (Inl e, st1)
      | (Inr result, st1) \<Rightarrow>
          (case iterate result of
             Inl e \<Rightarrow> (Inl e, st1)
           | Inr items \<Rightarrow> get_torrents_loop E normalize_field_names hashes items [] st1))"

declare str_nat.simps [simp del]

section \<open>Sample data\<close>

text \<open>
  The entries of CPython's Unicode database that the examples touch: U+0130 (capital I
  with dot above) is a letter whose lower case is \<open>i\<close> followed by the combining dot
  U+0307, which is not alphanumeric. No example reads any other entry.
\<close>

definition cpython :: pyrt where
  "cpython =
     \<lparr>uni_isalnum = (\<lambda>c. c = 304),
      uni_isdecimal = (\<lambda>c. False),
      uni_lower = (\<lambda>s. concat (map (\<lambda>c. if c = 304 then [105, 775] else [c]) s)),
      uni_int = (\<lambda>s. None),
      int_max_str_digits = 4300\<rparr>"

text \<open>A record of the tracker's \<open>torrents\<close> list, and an answer with a true \<open>status\<close>.\<close>

definition variant :: "string \<Rightarrow> string \<Rightarrow> string \<Rightarrow> pyval" where
  "variant series quality u =
     PDict [(str ''series'', PStr (str series)), (str ''quality'', PStr (str quality)),
            (str ''url'', PStr (str u))]"

definition release :: "pyval list \<Rightarrow> pyval" where
  "release torrents =
     PDict [(str ''status'', PBool True), (str ''data'', PDict [(str ''torrents'', PList torrents)])]"

text \<open>Two split batches of one release, as the grouping loop leaves them.\<close>

definition batches :: "(pystr \<times> pyval list) list" where
  "batches =
     [(str ''1-20'', [variant ''1-20'' ''WEBRip 1080p'' ''/upload/torrents/1.torrent'']),
      (str ''21-41'', [variant ''21-41'' ''WEBRip 1080p'' ''/upload/torrents/2.torrent''])]"

text \<open>An answer that offers one batch in two qualities, and the page it belongs to.\<close>

definition two_qualities :: pyval where
  "two_qualities =
     release [variant ''1-12'' ''HDTVRip 1080p'' ''/upload/torrents/1.torrent'',
              variant ''1-12'' ''WEBRip 720p'' ''/upload/torrents/2.torrent'']"

definition page0 :: pystr where
  "page0 = str ''https://www.anilibria.tv/release/sword-art-online-alicization.html''"

text \<open>Two torrents of one batch whose labels differ and sanitize to the same key.\<close>

definition same_key :: "pyval list" where
  "same_key =
     [variant ''1-12'' ''WEBRip 1080p'' ''/upload/torrents/1.torrent'',
      variant ''1-12'' ''WEBRip-1080p'' ''/upload/torrents/2.torrent'']"

text \<open>
  A client that answers every request with status 200 and the body \<open>Ok.\<close>, sending the
  given cookie jar; \<open>urljoin\<close> appends the segment to a base that ends with a slash.
\<close>

definition server :: "(pystr \<times> pystr) list option \<Rightarrow> env" where
  "server jar =
     \<lparr>http = (\<lambda>history request.
               Inr \<lparr>status_code = 200, resp_text = str ''Ok.'', resp_cookies = jar,
                    resp_json = Inr (PList [])\<rparr>),
      urljoin = (\<lambda>base segment. Inr (base @ segment)),
      format = (\<lambda>template arg. Inl TypeError)\<rparr>"

text \<open>A session as \<open>__init__\<close> leaves it, and one that holds a cookie.\<close>

definition fresh :: state where
  "fresh =
     \<lparr>session = init (Some (str ''http://localhost:8080/'')) (str ''localhost'') 8080
                  (str ''admin'') (str ''admin'') True,
      trace = []\<rparr>"

definition authenticated :: state where
  "authenticated = fresh\<lparr>session := (session fresh)\<lparr>cookies := [(str ''SID'', str ''abc'')]\<rparr>\<rparr>"

text \<open>
  Modelled from the spec: \<open>normalize_field_names\<close> of the base class is not among these
  sources. The spec has the client's field names "remapped" to the canonical ones "via a
  static per-backend mapping table"; this one gives a dict each new name with the value of
  the old one. No example applies it to anything but a dict.
\<close>

definition copy_fields :: normalizer where
  "copy_fields field_map row =
     (case row of
        PDict d \<Rightarrow>
          Inr (PDict (fold (\<lambda>names d'. case map_of d' (fst names) of
                                           None \<Rightarrow> d'
                                         | Some v \<Rightarrow> setitem d' (snd names) v)
                        field_map d))
      | other \<Rightarrow> Inr other)"

text \<open>
  A client with two torrents: it answers the listing with their rows, every other request
  with a comment, always with status 200, the body \<open>Ok.\<close> and the given cookie jar;
  \<open>format\<close> puts a string in the place of the \<open>%s\<close> that ends the template.
\<close>

definition listed :: "string \<Rightarrow> string \<Rightarrow> pyval" where
  "listed h n =
     PDict [(str ''hash'', PStr (str h)), (str ''name'', PStr (str n)),
            (str ''save_path'', PStr (str ''/downloads''))]"

definition listing_server :: "(pystr \<times> pystr) list option \<Rightarrow> env" where
  "listing_server jar =
     \<lparr>http = (\<lambda>history request.
               Inr \<lparr>status_code = 200, resp_text = str ''Ok.'', resp_cookies = jar,
                    resp_json =
                      (if req_url request = str ''http://localhost:8080/query/torrents''
                       then Inr (PList [listed ''aa'' ''one'', listed ''bb'' ''two''])
                       else Inr (PDict [(str ''comment'', PStr (str ''from the tracker''))]))\<rparr>),
      urljoin = (\<lambda>base segment. Inr (base @ segment)),
      format = (\<lambda>template arg.
                  case arg of
                    PStr s \<Rightarrow> Inr (take (length template - 2) template @ s)
                  | other \<Rightarrow> Inl TypeError)\<rparr>"

section \<open>The specification's wording\<close>

text \<open>
  The preference list after normalization, "deduplicating while preserving first-seen
  order": the first occurrence of a key stays, later ones go.
\<close>

fun first_seen :: "'a list \<Rightarrow> 'a list" where
  "first_seen [] = []"
| "first_seen (x # xs) = x # filter (\<lambda>y. y \<noteq> x) (first_seen xs)"

text \<open>
  "Walk the normalized preference list in order; return the URL of the first Quality Key
  present in the mapping. If none of the preferences match, fall back to the first entry
  in mapping iteration order."
\<close>

definition spec_preferred_link :: "pystr list \<Rightarrow> (pystr \<times> pystr) list \<Rightarrow> pystr" where
  "spec_preferred_link normalized mapping =
     (case List.find (\<lambda>q. map_of mapping q \<noteq> None) normalized of
        Some q \<Rightarrow> the (map_of mapping q)
      | None \<Rightarrow> snd (hd mapping))"

section \<open>Properties\<close>

subsection \<open>The quality normalizer\<close>

lemma ascii_lower_lt: "c < 128 \<Longrightarrow> ascii_lower c < 128"
  by (simp add: ascii_lower_def)

lemma ascii_lower_idem: "ascii_lower (ascii_lower c) = ascii_lower c"
  by (simp add: ascii_lower_def)

lemma ascii_alnum_lower: "ascii_alnum c \<Longrightarrow> ascii_alnum (ascii_lower c)"
  by (auto simp add: ascii_alnum_def ascii_lower_def ascii_digit_def)

lemma ascii_alnum_lt: "ascii_alnum c \<Longrightarrow> c < 128"
  by (auto simp add: ascii_alnum_def ascii_digit_def)

lemma REGEX_NON_WORD_ascii: "c < 128 \<Longrightarrow> REGEX_NON_WORD R c = (\<not> ascii_alnum c)"
  by (auto simp add: REGEX_NON_WORD_def isalnum_def ascii_alnum_def ascii_digit_def)

lemma REGEX_NON_WORD_sub_ascii:
  "list_all (\<lambda>c. c < 128) s \<Longrightarrow> REGEX_NON_WORD_sub R s = filter ascii_alnum s"
  by (induction s) (simp_all add: REGEX_NON_WORD_sub_def REGEX_NON_WORD_ascii)

lemma sanitize_quality_ascii_eq:
  assumes "list_all (\<lambda>c. c < 128) s"
  shows "sanitize_quality R (Some s) = map ascii_lower (filter ascii_alnum s)"
proof -
  have "list_all (\<lambda>c. c < 128) (filter ascii_alnum s)"
    using assms by (simp add: list_all_iff)
  then show ?thesis
    using assms by (simp add: sanitize_quality_def lower_def REGEX_NON_WORD_sub_ascii)
qed

lemma sanitized_fixed:
  "sanitize_quality R (Some (map ascii_lower (filter ascii_alnum s))) =
   map ascii_lower (filter ascii_alnum s)"
proof -
  let ?y = "map ascii_lower (filter ascii_alnum s)"
  have a: "list_all (\<lambda>c. c < 128) ?y"
    by (simp add: list_all_iff ascii_alnum_lt ascii_lower_lt)
  have "filter ascii_alnum ?y = ?y"
    by (induction s) (simp_all add: ascii_alnum_lower)
  then show ?thesis
    by (simp add: sanitize_quality_ascii_eq [OF a] ascii_lower_idem)
qed

text \<open>
  C5, as the code has it. On ASCII input \<open>sanitize_quality\<close> keeps the letters and digits
  and lowers them, so it ignores case and separators, and applying it twice gives what
  applying it once gives. Absent and empty input give the empty string, where the same
  holds. The three spellings of the docstring all give \<open>webrip1080p\<close>.
\<close>

theorem sanitize_quality_ascii:
  "(list_all (\<lambda>c. c < 128) x \<longrightarrow>
      sanitize_quality R (Some x) = map ascii_lower (filter ascii_alnum x) \<and>
      sanitize_quality R (Some (sanitize_quality R (Some x))) = sanitize_quality R (Some x)) \<and>
   sanitize_quality R None = [] \<and>
   sanitize_quality R (Some []) = [] \<and>
   sanitize_quality R (Some (sanitize_quality R None)) = sanitize_quality R None \<and>
   sanitize_quality R (Some (str ''WEBRip 1080p'')) = str ''webrip1080p'' \<and>
   sanitize_quality R (Some (str ''WEBRip-1080p'')) = str ''webrip1080p'' \<and>
   sanitize_quality R (Some (str ''WEBRip_1080p'')) = str ''webrip1080p''"
proof -
  have e1: "sanitize_quality R (Some (str ''WEBRip 1080p'')) = str ''webrip1080p''"
    by (simp add: sanitize_quality_ascii_eq str_def ascii_alnum_def ascii_digit_def ascii_lower_def)
  have e2: "sanitize_quality R (Some (str ''WEBRip-1080p'')) = str ''webrip1080p''"
    by (simp add: sanitize_quality_ascii_eq str_def ascii_alnum_def ascii_digit_def ascii_lower_def)
  have e3: "sanitize_quality R (Some (str ''WEBRip_1080p'')) = str ''webrip1080p''"
    by (simp add: sanitize_quality_ascii_eq str_def ascii_alnum_def ascii_digit_def ascii_lower_def)
  have n: "sanitize_quality R None = []" "sanitize_quality R (Some []) = []"
    by (simp_all add: sanitize_quality_def)
  show ?thesis
    using e1 e2 e3 n by (simp add: sanitize_quality_ascii_eq sanitized_fixed)
qed

theorem sanitize_quality_ascii_witness:
  "list_all (\<lambda>c. c < 128) (str ''HDTVRip 720p'') \<and>
   sanitize_quality cpython (Some (str ''HDTVRip 720p'')) = str ''hdtvrip720p'' \<and>
   sanitize_quality cpython (Some (sanitize_quality cpython (Some (str ''HDTVRip 720p'')))) =
     sanitize_quality cpython (Some (str ''HDTVRip 720p''))"
proof -
  have a: "list_all (\<lambda>c. c < 128) (str ''HDTVRip 720p'')"
    by (simp add: str_def)
  have b: "map ascii_lower (filter ascii_alnum (str ''HDTVRip 720p'')) = str ''hdtvrip720p''"
    by (simp add: str_def ascii_alnum_def ascii_digit_def ascii_lower_def)
  have t: "sanitize_quality cpython (Some (str ''HDTVRip 720p'')) =
             map ascii_lower (filter ascii_alnum (str ''HDTVRip 720p'')) \<and>
           sanitize_quality cpython (Some (sanitize_quality cpython (Some (str ''HDTVRip 720p'')))) =
             sanitize_quality cpython (Some (str ''HDTVRip 720p''))"
    using a sanitize_quality_ascii [of "str ''HDTVRip 720p''" cpython] by blast
  show ?thesis
    using a t unfolding b by blast
qed

text \<open>
  Beyond ASCII the second application can change the result: \<open>str.lower\<close> turns the
  letter U+0130 into \<open>i\<close> and the combining dot U+0307, and the dot, not being
  alphanumeric, is deleted the second time.
\<close>

theorem sanitize_quality_not_idempotent:
  "sanitize_quality cpython (Some [304]) = [105, 775] \<and>
   sanitize_quality cpython (Some (sanitize_quality cpython (Some [304]))) = [105] \<and>
   sanitize_quality cpython (Some (sanitize_quality cpython (Some [304]))) \<noteq>
     sanitize_quality cpython (Some [304])"
  by (simp add: sanitize_quality_def lower_def REGEX_NON_WORD_sub_def REGEX_NON_WORD_def
      isalnum_def cpython_def ascii_alnum_def ascii_digit_def ascii_lower_def)

subsection \<open>Answers without candidates\<close>

text \<open>A false or absent \<open>status\<close> ends \<open>get_download_link\<close> with the empty string.\<close>

lemma get_download_link_failure_status:
  assumes "fetch API_URL [(str ''query'', str ''release''), (str ''code'', extract_release_code page)]
             = Inr (PDict d)"
    and "map_of d (str ''status'') = None \<or> (\<exists>v. map_of d (str ''status'') = Some v \<and> \<not> truthy v)"
  shows "get_download_link R fetch prefs page = Inr []"
  using assms
  by (auto simp add: get_download_link_def find_available_qualities_def qualities_of_json_def)

text \<open>
  C1 at an answer with a true \<open>status\<close> and no usable torrent, be the list empty or hold
  a trailer only: \<open>sorted_series\<close> is empty, and \<open>sorted_series[0]\<close> raises
  \<open>IndexError\<close>, which \<open>get_download_link\<close> lets through.
\<close>

theorem get_download_link_no_candidates:
  "get_download_link R (\<lambda>u q. Inr (release [])) prefs page = Inl IndexError \<and>
   get_download_link R
     (\<lambda>u q. Inr (release [variant ''Trailer'' ''WEBRip 1080p'' ''/upload/torrents/1.torrent'']))
     prefs page = Inl IndexError"
  by (simp add: get_download_link_def find_available_qualities_def qualities_of_json_def
      release_def variant_def str_def selected_series_def sorted_series_def sorted_reverse_def
      series2torrents_step_def REGEX_RANGE_match_def isdecimal_def ascii_digit_def)

subsection \<open>A malformed range\<close>

text \<open>
  C4 at the series \<open>1-12+OVA\<close>: \<open>REGEX_RANGE.match\<close> accepts it, because the pattern is
  anchored at the start only, and \<open>to_tuple\<close> then raises \<open>ValueError\<close> on \<open>12+OVA\<close>,
  which \<open>find_available_qualities\<close> lets through.
\<close>

theorem find_available_qualities_malformed_range:
  "REGEX_RANGE_match R (str ''1-12+OVA'') \<and>
   to_tuple R (str ''1-12+OVA'') = Inl ValueError \<and>
   find_available_qualities R
     (\<lambda>u q. Inr (release [variant ''1-12+OVA'' ''WEBRip 1080p'' ''/upload/torrents/1.torrent'']))
     page = Inl ValueError"
  by (simp add: find_available_qualities_def qualities_of_json_def
      release_def variant_def str_def selected_series_def sorted_series_def sorted_reverse_def
      series2torrents_step_def REGEX_RANGE_match_def isdecimal_def ascii_digit_def
      to_tuple_def py_int_def int_literal_char_def getdefault_def)

subsection \<open>Dictionaries and loops\<close>

lemma map_of_setitem: "map_of (setitem d k v) = (map_of d)(k \<mapsto> v)"
  by (induction d) (auto simp add: fun_eq_iff)

lemma set_setitem: "set (setitem d k v) \<subseteq> insert (k, v) (set d)"
  by (induction d) auto

lemma keys_setitem: "fst ` set (setitem d k v) = insert k (fst ` set d)"
  by (induction d) auto

lemma distinct_setitem: "distinct (map fst d) \<Longrightarrow> distinct (map fst (setitem d k v))"
  by (induction d) (auto simp add: keys_setitem)

lemma getdefault_setitem:
  "getdefault (setitem d k v) k' = (if k' = k then v else getdefault d k')"
  by (simp add: getdefault_def map_of_setitem)

lemma foldE_append:
  "foldE f (xs @ ys) s = (case foldE f xs s of Inl e \<Rightarrow> Inl e | Inr s' \<Rightarrow> foldE f ys s')"
  by (induction xs arbitrary: s) (auto split: sum.splits)

subsection \<open>The quality mapping\<close>

lemma available_qualities_step_Inr:
  assumes "available_qualities_step R torrent aq = Inr aq'"
  shows "\<exists>label quality u.
           subscript torrent (str ''quality'') = Inr label \<and>
           sanitize_quality_of R label = Inr quality \<and>
           subscript torrent (str ''url'') = Inr (PStr u) \<and>
           aq' = setitem aq quality (HOST @ u)"
  using assms
  by (auto simp add: available_qualities_step_def split: sum.splits pyval.splits)

lemma available_qualities_values:
  assumes "foldE (available_qualities_step R) ts aq0 = Inr aq" and "(q, l) \<in> set aq"
  shows "(q, l) \<in> set aq0 \<or>
         (\<exists>t \<in> set ts. \<exists>u. subscript t (str ''url'') = Inr (PStr u) \<and> l = HOST @ u)"
  using assms
proof (induction ts arbitrary: aq0)
  case Nil
  then show ?case by simp
next
  case (Cons t ts)
  from Cons.prems(1) obtain aq1 where
    s: "available_qualities_step R t aq0 = Inr aq1" and
    r: "foldE (available_qualities_step R) ts aq1 = Inr aq"
    by (auto split: sum.splits)
  from available_qualities_step_Inr [OF s] obtain quality u where
    u: "subscript t (str ''url'') = Inr (PStr u)" and aq1: "aq1 = setitem aq0 quality (HOST @ u)"
    by blast
  from Cons.IH [OF r Cons.prems(2)] show ?case
  proof
    assume "(q, l) \<in> set aq1"
    with aq1 set_setitem [of aq0 quality "HOST @ u"]
    have "(q, l) = (quality, HOST @ u) \<or> (q, l) \<in> set aq0" by auto
    with u show ?thesis by auto
  next
    assume "\<exists>t \<in> set ts. \<exists>u. subscript t (str ''url'') = Inr (PStr u) \<and> l = HOST @ u"
    then show ?thesis by auto
  qed
qed

lemma available_qualities_distinct:
  "foldE (available_qualities_step R) ts aq0 = Inr aq \<Longrightarrow> distinct (map fst aq0) \<Longrightarrow>
   distinct (map fst aq)"
proof (induction ts arbitrary: aq0)
  case Nil
  then show ?case by simp
next
  case (Cons t ts)
  from Cons.prems(1) obtain aq1 where
    s: "available_qualities_step R t aq0 = Inr aq1" and
    r: "foldE (available_qualities_step R) ts aq1 = Inr aq"
    by (auto split: sum.splits)
  from available_qualities_step_Inr [OF s] Cons.prems(2) have "distinct (map fst aq1)"
    by (auto simp add: distinct_setitem)
  with Cons.IH [OF r] show ?case .
qed

lemma available_qualities_untouched:
  assumes "foldE (available_qualities_step R) ts aq0 = Inr aq"
    and "\<forall>t \<in> set ts. \<forall>label. subscript t (str ''quality'') = Inr label \<longrightarrow>
           sanitize_quality_of R label \<noteq> Inr q"
  shows "map_of aq q = map_of aq0 q"
  using assms
proof (induction ts arbitrary: aq0)
  case Nil
  then show ?case by simp
next
  case (Cons t ts)
  from Cons.prems(1) obtain aq1 where
    s: "available_qualities_step R t aq0 = Inr aq1" and
    r: "foldE (available_qualities_step R) ts aq1 = Inr aq"
    by (auto split: sum.splits)
  from available_qualities_step_Inr [OF s] Cons.prems(2) have "map_of aq1 q = map_of aq0 q"
    by (auto simp add: map_of_setitem)
  moreover from Cons.IH [OF r] Cons.prems(2) have "map_of aq q = map_of aq1 q"
    by simp
  ultimately show ?case by simp
qed

text \<open>
  C6. Let the second loop run over a group in which a torrent \<open>later\<close> comes after a
  torrent \<open>earlier\<close>, their quality labels sanitize to the same key, and no torrent after
  \<open>later\<close> has that key. Then the mapping gives the key the link of \<open>later\<close>, and it
  holds no other entry for the key: the link of \<open>earlier\<close> is overwritten.
\<close>

theorem available_qualities_last_write_wins:
  assumes "foldE (available_qualities_step R) (before @ earlier # between @ later # after) []
             = Inr available_qualities"
    and "subscript earlier (str ''quality'') = Inr (PStr label1)"
    and "subscript later (str ''quality'') = Inr (PStr label2)"
    and "subscript later (str ''url'') = Inr (PStr url2)"
    and "sanitize_quality R (Some label1) = sanitize_quality R (Some label2)"
    and "\<forall>t \<in> set after. \<forall>label. subscript t (str ''quality'') = Inr label \<longrightarrow>
           sanitize_quality_of R label \<noteq> Inr (sanitize_quality R (Some label2))"
  shows "map_of available_qualities (sanitize_quality R (Some label1)) = Some (HOST @ url2) \<and>
         distinct (map fst available_qualities) \<and>
         (\<forall>link. (sanitize_quality R (Some label1), link) \<in> set available_qualities
            \<longrightarrow> link = HOST @ url2)"
proof -
  let ?q = "sanitize_quality R (Some label2)"
  have split: "before @ earlier # between @ later # after = (before @ earlier # between) @ later # after"
    by simp
  from assms(1) obtain aq1 aq2 where
    a1: "foldE (available_qualities_step R) (before @ earlier # between) [] = Inr aq1" and
    a2: "available_qualities_step R later aq1 = Inr aq2" and
    a3: "foldE (available_qualities_step R) after aq2 = Inr available_qualities"
    unfolding split foldE_append by (auto split: sum.splits)
  from available_qualities_step_Inr [OF a2] assms(3,4)
  have "aq2 = setitem aq1 ?q (HOST @ url2)"
    by (auto simp add: sanitize_quality_of_def)
  then have "map_of aq2 ?q = Some (HOST @ url2)"
    by (simp add: map_of_setitem)
  with available_qualities_untouched [OF a3 assms(6)]
  have m: "map_of available_qualities ?q = Some (HOST @ url2)" by simp
  have d: "distinct (map fst available_qualities)"
    using available_qualities_distinct [OF assms(1)] by simp
  have "link = HOST @ url2" if "(?q, link) \<in> set available_qualities" for link
    using that m map_of_is_SomeI [OF d that] by simp
  with m d show ?thesis
    unfolding assms(5) by blast
qed

theorem available_qualities_last_write_wins_witness:
  "foldE (available_qualities_step cpython) same_key [] =
     Inr [(str ''webrip1080p'', HOST @ str ''/upload/torrents/2.torrent'')] \<and>
   str ''WEBRip 1080p'' \<noteq> str ''WEBRip-1080p'' \<and>
   sanitize_quality cpython (Some (str ''WEBRip 1080p'')) =
     sanitize_quality cpython (Some (str ''WEBRip-1080p'')) \<and>
   map_of [(str ''webrip1080p'', HOST @ str ''/upload/torrents/2.torrent'')]
     (sanitize_quality cpython (Some (str ''WEBRip 1080p''))) =
     Some (HOST @ str ''/upload/torrents/2.torrent'')"
proof -
  let ?earlier = "variant ''1-12'' ''WEBRip 1080p'' ''/upload/torrents/1.torrent''"
  let ?later = "variant ''1-12'' ''WEBRip-1080p'' ''/upload/torrents/2.torrent''"
  let ?m = "[(str ''webrip1080p'', HOST @ str ''/upload/torrents/2.torrent'')]"
  have k: "sanitize_quality cpython (Some (str ''WEBRip 1080p'')) = str ''webrip1080p''"
    "sanitize_quality cpython (Some (str ''WEBRip-1080p'')) = str ''webrip1080p''"
    by (simp_all add: sanitize_quality_ascii_eq str_def ascii_alnum_def ascii_digit_def
        ascii_lower_def)
  have f0: "foldE (available_qualities_step cpython) same_key [] = Inr ?m"
    by (simp add: same_key_def variant_def available_qualities_step_def sanitize_quality_of_def k)
      (simp add: str_def)
  then have f: "foldE (available_qualities_step cpython) ([] @ ?earlier # [] @ ?later # []) []
                  = Inr ?m"
    by (simp add: same_key_def)
  have q1: "subscript ?earlier (str ''quality'') = Inr (PStr (str ''WEBRip 1080p''))"
    by (simp add: variant_def str_def)
  have q2: "subscript ?later (str ''quality'') = Inr (PStr (str ''WEBRip-1080p''))"
    by (simp add: variant_def str_def)
  have u2: "subscript ?later (str ''url'') = Inr (PStr (str ''/upload/torrents/2.torrent''))"
    by (simp add: variant_def str_def)
  have s: "sanitize_quality cpython (Some (str ''WEBRip 1080p'')) =
           sanitize_quality cpython (Some (str ''WEBRip-1080p''))"
    by (simp add: k)
  have a: "\<forall>t \<in> set []. \<forall>label. subscript t (str ''quality'') = Inr label \<longrightarrow>
             sanitize_quality_of cpython label \<noteq>
               Inr (sanitize_quality cpython (Some (str ''WEBRip-1080p'')))"
    by simp
  have d: "str ''WEBRip 1080p'' \<noteq> str ''WEBRip-1080p''"
    by (simp add: str_def)
  from available_qualities_last_write_wins [OF f q1 q2 u2 s a]
  have "map_of ?m (sanitize_quality cpython (Some (str ''WEBRip 1080p''))) =
          Some (HOST @ str ''/upload/torrents/2.torrent'')"
    by blast
  with f0 d s show ?thesis by blast
qed

subsection \<open>Where the links come from\<close>

lemma series2torrents_step_members:
  assumes "series2torrents_step R t s0 = Inr s1"
  shows "set (getdefault s1 k) \<subseteq> set (getdefault s0 k) \<union> {t}"
  using assms
  by (auto simp add: series2torrents_step_def getdefault_setitem
      split: sum.splits pyval.splits if_splits)

lemma series2torrents_members:
  "foldE (series2torrents_step R) ts s0 = Inr s \<Longrightarrow>
   set (getdefault s k) \<subseteq> set (getdefault s0 k) \<union> set ts"
proof (induction ts arbitrary: s0)
  case Nil
  then show ?case by simp
next
  case (Cons t ts)
  from Cons.prems obtain s1 where
    a: "series2torrents_step R t s0 = Inr s1" and
    b: "foldE (series2torrents_step R) ts s1 = Inr s"
    by (auto split: sum.splits)
  from series2torrents_step_members [OF a, of k] Cons.IH [OF b] show ?case
    by auto
qed

lemma qualities_of_json_Inr:
  assumes "qualities_of_json R json = Inr aq" and "aq \<noteq> []"
  shows "\<exists>data torrents ts series2torrents series.
           subscript json (str ''data'') = Inr data \<and>
           subscript data (str ''torrents'') = Inr torrents \<and>
           iterate torrents = Inr ts \<and>
           foldE (series2torrents_step R) ts [] = Inr series2torrents \<and>
           selected_series R series2torrents = Inr series \<and>
           foldE (available_qualities_step R) (getdefault series2torrents series) [] = Inr aq"
  using assms
  by (auto simp add: qualities_of_json_def split: sum.splits if_splits)

lemma qualities_of_json_links:
  assumes "qualities_of_json R json = Inr aq" and "(q, l) \<in> set aq"
  shows "\<exists>data torrents ts torrent u.
           subscript json (str ''data'') = Inr data \<and>
           subscript data (str ''torrents'') = Inr torrents \<and>
           iterate torrents = Inr ts \<and> torrent \<in> set ts \<and>
           subscript torrent (str ''url'') = Inr (PStr u) \<and> l = HOST @ u"
proof -
  from assms(2) have "aq \<noteq> []" by auto
  from qualities_of_json_Inr [OF assms(1) this] obtain data torrents ts s2t series where
    d: "subscript json (str ''data'') = Inr data"
      "subscript data (str ''torrents'') = Inr torrents"
      "iterate torrents = Inr ts" and
    g: "foldE (series2torrents_step R) ts [] = Inr s2t" and
    f: "foldE (available_qualities_step R) (getdefault s2t series) [] = Inr aq"
    by blast
  from available_qualities_values [OF f assms(2)] obtain t u where
    t: "t \<in> set (getdefault s2t series)" "subscript t (str ''url'') = Inr (PStr u)" "l = HOST @ u"
    by auto
  from series2torrents_members [OF g, of series] t(1) have "t \<in> set ts"
    by (auto simp add: getdefault_def)
  with d t show ?thesis by blast
qed

lemma HOST_not_Nil: "HOST @ u \<noteq> []"
  by (simp add: HOST_def str_def)

subsection \<open>The choice among the qualities\<close>

lemma quality_prefs_loop_first_seen:
  "quality_prefs_loop R prefs acc =
   acc @ filter (\<lambda>q. q \<notin> set acc) (first_seen (map (\<lambda>pref. sanitize_quality R (Some pref)) prefs))"
proof (induction prefs arbitrary: acc)
  case Nil
  then show ?case by simp
next
  case (Cons p prefs)
  show ?case
  proof (cases "sanitize_quality R (Some p) \<in> set acc")
    case True
    then have "(\<lambda>q. q \<noteq> sanitize_quality R (Some p) \<and> q \<notin> set acc) = (\<lambda>q. q \<notin> set acc)"
      by auto
    with True show ?thesis by (simp add: Cons.IH)
  next
    case False
    then show ?thesis by (simp add: Cons.IH conj_commute)
  qed
qed

lemma find_filter_other: "\<not> P x \<Longrightarrow> List.find P (filter (\<lambda>y. y \<noteq> x) ys) = List.find P ys"
  by (induction ys) auto

lemma find_first_seen: "List.find P (first_seen xs) = List.find P xs"
  by (induction xs) (auto simp add: find_filter_other)

lemma case_filter_find:
  "(case filter P xs of [] \<Rightarrow> a | t # rest \<Rightarrow> f t) = (case List.find P xs of None \<Rightarrow> a | Some t \<Rightarrow> f t)"
  by (induction xs) auto

lemma choose_link_find:
  "choose_link R prefs aq =
     (case List.find (\<lambda>q. q \<in> set (map fst aq)) (map (\<lambda>pref. sanitize_quality R (Some pref)) prefs) of
        None \<Rightarrow> (case aq of [] \<Rightarrow> Inl StopIteration | item # rest \<Rightarrow> Inr (snd item))
      | Some q \<Rightarrow> (case map_of aq q of None \<Rightarrow> Inl KeyError | Some link \<Rightarrow> Inr link))"
  unfolding choose_link_def case_filter_find
  by (simp add: quality_prefs_loop_first_seen find_first_seen)

lemma choose_link_spec:
  assumes "aq \<noteq> []"
  shows "choose_link R prefs aq =
           Inr (spec_preferred_link (first_seen (map (\<lambda>pref. sanitize_quality R (Some pref)) prefs)) aq)"
proof -
  let ?P = "\<lambda>q. q \<in> set (map fst aq)"
  let ?Q = "\<lambda>q. map_of aq q \<noteq> None"
  let ?n = "map (\<lambda>pref. sanitize_quality R (Some pref)) prefs"
  have PQ: "?P = ?Q"
    by (auto simp add: fun_eq_iff map_of_eq_None_iff)
  have fb: "(case aq of [] \<Rightarrow> Inl StopIteration | item # rest \<Rightarrow> Inr (snd item)) = Inr (snd (hd aq))"
    using assms by (cases aq) simp_all
  have cl: "choose_link R prefs aq =
              (case List.find ?Q ?n of
                 None \<Rightarrow> Inr (snd (hd aq))
               | Some q \<Rightarrow> (case map_of aq q of None \<Rightarrow> Inl KeyError | Some link \<Rightarrow> Inr link))"
    unfolding choose_link_find fb PQ ..
  show ?thesis
  proof (cases "List.find ?Q ?n")
    case None
    then show ?thesis
      by (simp add: cl spec_preferred_link_def find_first_seen)
  next
    case (Some q)
    then have "?Q q" by (auto simp add: find_Some_iff)
    with Some show ?thesis
      by (auto simp add: cl spec_preferred_link_def find_first_seen)
  qed
qed

lemma spec_preferred_link_member:
  assumes "aq \<noteq> []"
  shows "spec_preferred_link normalized aq \<in> snd ` set aq"
proof (cases "List.find (\<lambda>q. map_of aq q \<noteq> None) normalized")
  case None
  with assms show ?thesis
    by (cases aq) (simp_all add: spec_preferred_link_def)
next
  case (Some q)
  then obtain l where "map_of aq q = Some l" by (auto simp add: find_Some_iff)
  with Some show ?thesis
    by (auto simp add: spec_preferred_link_def dest!: map_of_SomeD intro: rev_image_eqI)
qed

lemma two_qualities_mapping:
  "find_available_qualities cpython (\<lambda>u q. Inr two_qualities) page0 =
     Inr [(str ''hdtvrip1080p'', HOST @ str ''/upload/torrents/1.torrent''),
          (str ''webrip720p'', HOST @ str ''/upload/torrents/2.torrent'')]"
  by code_simp

text \<open>
  C3. For a mapping that is not empty, the loop over the preferences leaves them
  sanitized, in order, each at its first occurrence; the link chosen is that of the
  first of them that is a key of the mapping, or, when none is, that of the first entry of
  the mapping. It is a link of the mapping, and \<open>get_download_link\<close> returns it, not
  empty, when the mapping is what \<open>find_available_qualities\<close> found.
\<close>

theorem get_download_link_preference:
  assumes "mapping \<noteq> []"
  shows "quality_prefs_loop R prefs [] =
           first_seen (map (\<lambda>pref. sanitize_quality R (Some pref)) prefs) \<and>
         choose_link R prefs mapping =
           Inr (spec_preferred_link
                  (first_seen (map (\<lambda>pref. sanitize_quality R (Some pref)) prefs)) mapping) \<and>
         spec_preferred_link
           (first_seen (map (\<lambda>pref. sanitize_quality R (Some pref)) prefs)) mapping
           \<in> snd ` set mapping \<and>
         (find_available_qualities R fetch page = Inr mapping \<longrightarrow>
            get_download_link R fetch prefs page =
              Inr (spec_preferred_link
                     (first_seen (map (\<lambda>pref. sanitize_quality R (Some pref)) prefs)) mapping) \<and>
            spec_preferred_link
              (first_seen (map (\<lambda>pref. sanitize_quality R (Some pref)) prefs)) mapping \<noteq> [])"
proof -
  let ?link = "spec_preferred_link
                 (first_seen (map (\<lambda>pref. sanitize_quality R (Some pref)) prefs)) mapping"
  have a: "quality_prefs_loop R prefs [] =
           first_seen (map (\<lambda>pref. sanitize_quality R (Some pref)) prefs)"
    by (simp add: quality_prefs_loop_first_seen)
  have b: "choose_link R prefs mapping = Inr ?link"
    using assms by (rule choose_link_spec)
  have c: "?link \<in> snd ` set mapping"
    using assms by (rule spec_preferred_link_member)
  have d: "get_download_link R fetch prefs page = Inr ?link \<and> ?link \<noteq> []"
    if f: "find_available_qualities R fetch page = Inr mapping"
  proof -
    from f assms b have "get_download_link R fetch prefs page = Inr ?link"
      by (simp add: get_download_link_def)
    moreover from c obtain q where "(q, ?link) \<in> set mapping"
      by auto
    moreover from f obtain json where "qualities_of_json R json = Inr mapping"
      by (auto simp add: find_available_qualities_def split: sum.splits)
    ultimately show ?thesis
      using qualities_of_json_links HOST_not_Nil by metis
  qed
  from a b c d show ?thesis by blast
qed

theorem get_download_link_preference_witness:
  "find_available_qualities cpython (\<lambda>u q. Inr two_qualities) page0 =
     Inr [(str ''hdtvrip1080p'', HOST @ str ''/upload/torrents/1.torrent''),
          (str ''webrip720p'', HOST @ str ''/upload/torrents/2.torrent'')] \<and>
   get_download_link cpython (\<lambda>u q. Inr two_qualities)
     [str ''WEBRip 720p'', str ''HDTVRip 1080p''] page0 =
     Inr (HOST @ str ''/upload/torrents/2.torrent'') \<and>
   get_download_link cpython (\<lambda>u q. Inr two_qualities) [str ''BDRip 480p''] page0 =
     Inr (HOST @ str ''/upload/torrents/1.torrent'')"
proof -
  let ?m = "[(str ''hdtvrip1080p'', HOST @ str ''/upload/torrents/1.torrent''),
             (str ''webrip720p'', HOST @ str ''/upload/torrents/2.torrent'')]"
  have n: "?m \<noteq> []" by simp
  have e1: "spec_preferred_link
              (first_seen (map (\<lambda>pref. sanitize_quality cpython (Some pref))
                 [str ''WEBRip 720p'', str ''HDTVRip 1080p''])) ?m =
            HOST @ str ''/upload/torrents/2.torrent''"
    by code_simp
  have e2: "spec_preferred_link
              (first_seen (map (\<lambda>pref. sanitize_quality cpython (Some pref))
                 [str ''BDRip 480p''])) ?m =
            HOST @ str ''/upload/torrents/1.torrent''"
    by code_simp
  have t1: "get_download_link cpython (\<lambda>u q. Inr two_qualities)
              [str ''WEBRip 720p'', str ''HDTVRip 1080p''] page0 =
            Inr (spec_preferred_link
              (first_seen (map (\<lambda>pref. sanitize_quality cpython (Some pref))
                 [str ''WEBRip 720p'', str ''HDTVRip 1080p''])) ?m)"
    using get_download_link_preference [OF n] two_qualities_mapping by blast
  have t2: "get_download_link cpython (\<lambda>u q. Inr two_qualities) [str ''BDRip 480p''] page0 =
            Inr (spec_preferred_link
              (first_seen (map (\<lambda>pref. sanitize_quality cpython (Some pref))
                 [str ''BDRip 480p''])) ?m)"
    using get_download_link_preference [OF n] two_qualities_mapping by blast
  from two_qualities_mapping t1 [unfolded e1] t2 [unfolded e2] show ?thesis
    by (intro conjI)
qed

text \<open>
  C10. A link that \<open>get_download_link\<close> returns and that is not empty is \<open>HOST\<close>
  followed by the \<open>url\<close> field of one of the torrents of the tracker's answer.
\<close>

theorem get_download_link_absolute:
  assumes "get_download_link R fetch prefs page = Inr link" and "link \<noteq> []"
  shows "\<exists>json data torrents ts torrent u.
           fetch API_URL [(str ''query'', str ''release''), (str ''code'', extract_release_code page)]
             = Inr json \<and>
           subscript json (str ''data'') = Inr data \<and>
           subscript data (str ''torrents'') = Inr torrents \<and>
           iterate torrents = Inr ts \<and> torrent \<in> set ts \<and>
           subscript torrent (str ''url'') = Inr (PStr u) \<and>
           link = HOST @ u"
proof -
  from assms obtain aq where
    f: "find_available_qualities R fetch page = Inr aq" and n: "aq \<noteq> []" and
    c: "choose_link R prefs aq = Inr link"
    by (auto simp add: get_download_link_def split: sum.splits if_splits)
  from f obtain json where
    j: "fetch API_URL [(str ''query'', str ''release''), (str ''code'', extract_release_code page)]
          = Inr json" and
    q: "qualities_of_json R json = Inr aq"
    by (auto simp add: find_available_qualities_def split: sum.splits)
  from c n have "link \<in> snd ` set aq"
    using spec_preferred_link_member [OF n] by (auto simp add: choose_link_spec)
  then obtain k where "(k, link) \<in> set aq" by auto
  from qualities_of_json_links [OF q this] j show ?thesis by blast
qed

theorem get_download_link_absolute_witness:
  "get_download_link cpython (\<lambda>u q. Inr two_qualities) default_quality_prefs page0 =
     Inr (HOST @ str ''/upload/torrents/1.torrent'') \<and>
   HOST @ str ''/upload/torrents/1.torrent'' \<noteq> [] \<and>
   (\<exists>json data torrents ts torrent u.
      (\<lambda>u q. Inr two_qualities) API_URL
        [(str ''query'', str ''release''), (str ''code'', extract_release_code page0)] = Inr json \<and>
      subscript json (str ''data'') = Inr data \<and>
      subscript data (str ''torrents'') = Inr torrents \<and>
      iterate torrents = Inr ts \<and> torrent \<in> set ts \<and>
      subscript torrent (str ''url'') = Inr (PStr u) \<and>
      HOST @ str ''/upload/torrents/1.torrent'' = HOST @ u)"
proof -
  have g: "get_download_link cpython (\<lambda>u q. Inr two_qualities) default_quality_prefs page0 =
             Inr (HOST @ str ''/upload/torrents/1.torrent'')"
    by code_simp
  have n: "HOST @ str ''/upload/torrents/1.torrent'' \<noteq> []"
    by (simp add: HOST_def str_def)
  from get_download_link_absolute [OF g n] g n show ?thesis
    by blast
qed

subsection \<open>The ranking of the series\<close>

lemma zip_decorate: "zip xs (map f xs) = map (\<lambda>x. (x, f x)) xs"
  by (induction xs) simp_all

lemma mapE_total:
  "\<forall>x \<in> set xs. \<exists>y. f x = Inr y \<Longrightarrow> mapE f xs = Inr (map (\<lambda>x. projr (f x)) xs)"
  by (induction xs) auto

lemma sorted_rev_hd: "sorted (rev xs) \<Longrightarrow> x \<in> set xs \<Longrightarrow> x \<le> hd xs"
  by (cases xs) (auto simp add: sorted_append)

lemma sorted_reverse_props:
  fixes key :: "'a \<Rightarrow> 'k::linorder"
  shows "mset (sorted_reverse (map (\<lambda>x. (x, key x)) xs)) = mset xs"
    and "sorted (rev (map key (sorted_reverse (map (\<lambda>x. (x, key x)) xs))))"
proof -
  let ?z = "map (\<lambda>x. (x, key x)) xs"
  let ?s = "sort_key snd (rev ?z)"
  have "mset (map fst (rev ?s)) = image_mset fst (mset ?z)"
    by simp
  also have "\<dots> = mset xs"
    by (simp add: image_mset.compositionality o_def flip: mset_map)
  finally show "mset (sorted_reverse ?z) = mset xs"
    by (simp add: sorted_reverse_def)
  have "\<forall>p \<in> set ?s. snd p = key (fst p)"
    by auto
  then have "map key (map fst ?s) = map snd ?s"
    by simp
  then have "rev (map key (map fst (rev ?s))) = map snd ?s"
    by (simp add: rev_map)
  moreover have "sorted (map snd ?s)"
    by (rule sorted_sort_key)
  ultimately show "sorted (rev (map key (sorted_reverse ?z)))"
    by (simp add: sorted_reverse_def)
qed

lemma pair_le: "([a, b] :: int list) \<le> [c, d] \<longleftrightarrow> a < c \<or> (a = c \<and> b \<le> d)"
  by auto

text \<open>
  C2. When every series of the grouping reads as a pair of integers, \<open>sorted_series\<close>
  is a rearrangement of the series whose pairs descend, the series selected is its
  head, and the pair of every series is at most the pair of the one selected, first
  component before second, as integers.
\<close>

theorem selected_series_greatest:
  assumes "series2torrents \<noteq> []"
    and "\<forall>series \<in> set (map fst series2torrents). \<exists>start stop. to_tuple R series = Inr [start, stop]"
  shows "\<exists>ranked.
           sorted_series R series2torrents = Inr ranked \<and>
           mset ranked = mset (map fst series2torrents) \<and>
           sorted (rev (map (\<lambda>series. projr (to_tuple R series)) ranked)) \<and>
           selected_series R series2torrents = Inr (hd ranked) \<and>
           (\<forall>series \<in> set (map fst series2torrents). \<forall>a b c d.
              to_tuple R series = Inr [a, b] \<longrightarrow> to_tuple R (hd ranked) = Inr [c, d] \<longrightarrow>
              a < c \<or> (a = c \<and> b \<le> d))"
proof -
  let ?keys = "map fst series2torrents"
  let ?key = "\<lambda>series. projr (to_tuple R series)"
  let ?ranked = "sorted_reverse (map (\<lambda>x. (x, ?key x)) ?keys)"
  from assms(2) have "mapE (to_tuple R) ?keys = Inr (map ?key ?keys)"
    by (intro mapE_total) auto
  moreover have "zip ?keys (map ?key ?keys) = map (\<lambda>x. (x, ?key x)) ?keys"
    by (rule zip_decorate)
  ultimately have s: "sorted_series R series2torrents = Inr ?ranked"
    by (simp add: sorted_series_def)
  have m: "mset ?ranked = mset ?keys" and d: "sorted (rev (map ?key ?ranked))"
    by (rule sorted_reverse_props)+
  from m assms(1) have n: "?ranked \<noteq> []"
    by (metis mset_zero_iff map_is_Nil_conv)
  then have sel: "selected_series R series2torrents = Inr (hd ?ranked)"
    by (cases ?ranked) (simp_all add: selected_series_def s)
  have g: "a < c \<or> (a = c \<and> b \<le> d)"
    if "series \<in> set ?keys" "to_tuple R series = Inr [a, b]" "to_tuple R (hd ?ranked) = Inr [c, d]"
    for series a b c d
  proof -
    from that(1) m have "series \<in> set ?ranked"
      by (metis set_mset_mset)
    then have "?key series \<in> set (map ?key ?ranked)" by simp
    with d have "?key series \<le> hd (map ?key ?ranked)" by (rule sorted_rev_hd)
    with n that(2,3) have "[a, b] \<le> [c, d]" by (simp add: hd_map)
    then show ?thesis by (simp only: pair_le)
  qed
  from s m d sel g show ?thesis by blast
qed

theorem selected_series_greatest_witness:
  "to_tuple cpython (str ''1-20'') = Inr [1, 20] \<and>
   to_tuple cpython (str ''21-41'') = Inr [21, 41] \<and>
   selected_series cpython batches = Inr (str ''21-41'') \<and>
   (\<exists>ranked. sorted_series cpython batches = Inr ranked \<and> hd ranked = str ''21-41'' \<and>
      sorted (rev (map (\<lambda>series. projr (to_tuple cpython series)) ranked)))"
proof -
  have h1: "to_tuple cpython (str ''1-20'') = Inr [1, 20]"
    by (simp add: to_tuple_def str_def py_int_def ascii_digit_def cpython_def)
  have h2: "to_tuple cpython (str ''21-41'') = Inr [21, 41]"
    by (simp add: to_tuple_def str_def py_int_def ascii_digit_def cpython_def)
  have n: "batches \<noteq> []"
    by (simp add: batches_def)
  have p: "\<forall>series \<in> set (map fst batches).
             \<exists>start stop. to_tuple cpython series = Inr [start, stop]"
    using h1 h2 by (simp add: batches_def)
  from selected_series_greatest [OF n p] obtain ranked where
    r: "sorted_series cpython batches = Inr ranked"
      "sorted (rev (map (\<lambda>series. projr (to_tuple cpython series)) ranked))"
      "selected_series cpython batches = Inr (hd ranked)"
    by blast
  have "sorted_series cpython batches = Inr [str ''21-41'', str ''1-20'']"
    using h1 h2 by (simp add: sorted_series_def batches_def sorted_reverse_def)
  with r(1) have "ranked = [str ''21-41'', str ''1-20'']"
    by simp
  then have "hd ranked = str ''21-41''"
    by simp
  with r h1 h2 show ?thesis by auto
qed

text \<open>
  Where the string order and the numeric order disagree, the numeric one decides:
  \<open>10-19\<close> is ranked above \<open>2-9\<close>, although as a string it is the smaller.
\<close>

lemma sorted_series_numeric:
  "sorted_series cpython [(str ''2-9'', []), (str ''10-19'', [])] = Inr [str ''10-19'', str ''2-9''] \<and>
   str ''10-19'' < str ''2-9''"
  by (simp add: sorted_series_def sorted_reverse_def to_tuple_def str_def py_int_def
      ascii_digit_def cpython_def)

subsection \<open>The session and its login\<close>

lemma query_cases:
  assumes "query E data files st = (r, st')"
  shows "session st' = session st \<and>
         ((st' = st \<and> (\<exists>e. r = Inl e)) \<or>
          (\<exists>req. build_request E (session st) data files = Inr req \<and>
                 trace st' = trace st @ [Http req] \<and>
                 (\<forall>response. r = Inr response \<longrightarrow>
                    http E (trace st) req = Inr response \<and> status_code response = 200)))"
  using assms
  by (auto simp add: query_def split: option.splits sum.splits if_splits)

lemma query_trace:
  assumes "query E data files st = (r, st')"
  shows "\<exists>new. trace st' = trace st @ new \<and> LoginCall \<notin> set new"
  using query_cases [OF assms] by auto

lemma login_cases:
  assumes "login E st = (r, st')"
  shows "(\<exists>new. trace st' = trace st @ LoginCall # new \<and> LoginCall \<notin> set new) \<and>
         (r = Inl QBittorrentRPCException \<and> session st' = session st \<or>
          r = Inr () \<and>
          (\<exists>(result::response) jar. resp_text result = str ''Ok.'' \<and> resp_cookies result = Some jar \<and>
             status_code result = 200 \<and>
             session st' = (session st)\<lparr>cookies := jar\<rparr>))"
proof -
  obtain q st1 where q: "query E (login_params (session st)) None (st\<lparr>trace := trace st @ [LoginCall]\<rparr>) = (q, st1)"
    by (cases "query E (login_params (session st)) None (st\<lparr>trace := trace st @ [LoginCall]\<rparr>)")
  from query_cases [OF q] have s: "session st1 = session st" by simp
  from query_trace [OF q] obtain new where
    n: "trace st1 = trace st @ LoginCall # new" "LoginCall \<notin> set new" by auto
  show ?thesis
  proof (cases q)
    case (Inl e)
    with assms q s n show ?thesis by (auto simp add: login_def)
  next
    case (Inr result)
    with query_cases [OF q] have c: "status_code result = 200" by auto
    show ?thesis
    proof (cases "resp_text result = str ''Ok.'' \<and> resp_cookies result \<noteq> None")
      case True
      then obtain jar where j: "resp_cookies result = Some jar" by auto
      with True Inr assms q have r: "r = Inr ()" "st' = st1\<lparr>session := (session st1)\<lparr>cookies := jar\<rparr>\<rparr>"
        by (auto simp add: login_def)
      with n have A: "\<exists>new. trace st' = trace st @ LoginCall # new \<and> LoginCall \<notin> set new"
        by simp
      from r s have "session st' = (session st)\<lparr>cookies := jar\<rparr>" by simp
      with True j c have "\<exists>(result::response) jar. resp_text result = str ''Ok.'' \<and> resp_cookies result = Some jar \<and>
             status_code result = 200 \<and> session st' = (session st)\<lparr>cookies := jar\<rparr>"
        by blast
      with A r(1) show ?thesis by blast
    next
      case False
      with Inr assms q have "r = Inl QBittorrentRPCException" "st' = st1"
        by (auto simp add: login_def split: if_splits)
      with s n show ?thesis by auto
    qed
  qed
qed

lemma auth_query_fresh:
  assumes "cookies (session st) = []"
  shows "\<exists>rest. trace (snd (auth_query E data files st)) = trace st @ LoginCall # rest \<and>
                LoginCall \<notin> set rest"
proof -
  obtain r st1 where l: "login E st = (r, st1)" by (cases "login E st")
  from login_cases [OF l] obtain new where
    n: "trace st1 = trace st @ LoginCall # new" "LoginCall \<notin> set new" by auto
  show ?thesis
  proof (cases r)
    case (Inl e)
    with assms l n show ?thesis by (simp add: auth_query_def)
  next
    case (Inr u)
    obtain r2 st2 where q: "query E data files st1 = (r2, st2)" by (cases "query E data files st1")
    from query_trace [OF q] n assms l Inr q show ?thesis
      by (auto simp add: auth_query_def)
  qed
qed

lemma auth_query_authenticated:
  assumes "cookies (session st) \<noteq> []"
  shows "\<exists>rest. trace (snd (auth_query E data files st)) = trace st @ rest \<and> LoginCall \<notin> set rest"
proof -
  obtain r2 st2 where q: "query E data files st = (r2, st2)" by (cases "query E data files st")
  from query_trace [OF q] assms q show ?thesis
    by (auto simp add: auth_query_def)
qed

lemma auth_query_json_trace:
  "trace (snd (auth_query_json E data files st)) = trace (snd (auth_query E data files st))"
  by (auto simp add: auth_query_json_def auth_query_def split: prod.splits sum.splits)

text \<open>
  Call by call: a session as \<open>__init__\<close> leaves it has no cookie. On a session without a
  cookie, \<open>auth_query\<close> and \<open>auth_query_json\<close> first call \<open>login\<close>, once, and whatever else
  they do comes after it; on a session with a cookie they do not call \<open>login\<close>.
\<close>

theorem auth_query_login_calls:
  "cookies (init url0 host0 port0 user0 password0 enabled0) = [] \<and>
   (cookies (session st) = [] \<longrightarrow>
      (\<exists>rest. trace (snd (auth_query E data files st)) = trace st @ LoginCall # rest \<and>
              LoginCall \<notin> set rest) \<and>
      (\<exists>rest. trace (snd (auth_query_json E data files st)) = trace st @ LoginCall # rest \<and>
              LoginCall \<notin> set rest)) \<and>
   (cookies (session st) \<noteq> [] \<longrightarrow>
      (\<exists>rest. trace (snd (auth_query E data files st)) = trace st @ rest \<and>
              LoginCall \<notin> set rest) \<and>
      (\<exists>rest. trace (snd (auth_query_json E data files st)) = trace st @ rest \<and>
              LoginCall \<notin> set rest))"
  using auth_query_fresh [of st E data files] auth_query_authenticated [of st E data files]
  by (simp add: auth_query_json_trace init_def)

theorem auth_query_login_calls_witness:
  "cookies (session fresh) = [] \<and>
   (\<exists>rest. trace (snd (auth_query (server (Some [(str ''SID'', str ''abc'')]))
                        (build_params (PStr (str ''api_version_path'')) None) None fresh)) =
             trace fresh @ LoginCall # rest \<and>
           LoginCall \<notin> set rest) \<and>
   cookies (session authenticated) \<noteq> [] \<and>
   snd (auth_query (server (Some [(str ''SID'', str ''abc'')]))
          (build_params (PStr (str ''api_version_path'')) None) None fresh) =
     authenticated
       \<lparr>trace :=
          [LoginCall,
           Http \<lparr>req_method = POST, req_url = str ''http://localhost:8080/login'',
                 req_cookies = Some [],
                 req_data = Some (PDict [(str ''username'', PStr (str ''admin'')),
                                         (str ''password'', PStr (str ''admin''))]),
                 req_files = None\<rparr>,
           Http \<lparr>req_method = GET, req_url = str ''http://localhost:8080/version/api'',
                 req_cookies = Some [(str ''SID'', str ''abc'')],
                 req_data = None, req_files = None\<rparr>]\<rparr> \<and>
   (\<exists>rest. trace (snd (auth_query (server (Some [(str ''SID'', str ''abc'')]))
                        (build_params (PStr (str ''api_version_path'')) None) None authenticated)) =
             trace authenticated @ rest \<and>
           LoginCall \<notin> set rest)"
proof -
  let ?E = "server (Some [(str ''SID'', str ''abc'')])"
  let ?D = "build_params (PStr (str ''api_version_path'')) None"
  have a: "cookies (session fresh) = []"
    by (simp add: fresh_def init_def)
  have b: "cookies (session authenticated) \<noteq> []"
    by (simp add: authenticated_def)
  have c: "snd (auth_query ?E ?D None fresh) =
     authenticated
       \<lparr>trace :=
          [LoginCall,
           Http \<lparr>req_method = POST, req_url = str ''http://localhost:8080/login'',
                 req_cookies = Some [],
                 req_data = Some (PDict [(str ''username'', PStr (str ''admin'')),
                                         (str ''password'', PStr (str ''admin''))]),
                 req_files = None\<rparr>,
           Http \<lparr>req_method = GET, req_url = str ''http://localhost:8080/version/api'',
                 req_cookies = Some [(str ''SID'', str ''abc'')],
                 req_data = None, req_files = None\<rparr>]\<rparr>"
    by (simp add: auth_query_def login_def query_def build_request_def get_request_url_def
        login_params_def build_params_def api_map_def server_def fresh_def authenticated_def
        init_def str_def)
  from auth_query_login_calls [where st = fresh and E = ?E and data = ?D and files = None] a
  have d: "\<exists>rest. trace (snd (auth_query ?E ?D None fresh)) = trace fresh @ LoginCall # rest \<and>
                  LoginCall \<notin> set rest"
    by blast
  from auth_query_login_calls [where st = authenticated and E = ?E and data = ?D and files = None] b
  have e: "\<exists>rest. trace (snd (auth_query ?E ?D None authenticated)) = trace authenticated @ rest \<and>
                  LoginCall \<notin> set rest"
    by blast
  from a d b c e show ?thesis
    by (intro conjI)
qed

text \<open>
  The operations built on \<open>auth_query\<close> inherit this: removing a torrent and asking
  for the version call \<open>login\<close> once, first, on a session without a cookie, and not at
  all on a session with one.
\<close>

lemma method_get_version_trace:
  "trace (snd (method_get_version E st)) =
   trace (snd (auth_query E (build_params (PStr (str ''api_version_path'')) None) None st))"
  by (simp add: method_get_version_def split: prod.splits sum.splits)

lemma derived_operations_login_calls:
  "(\<exists>rest. trace (snd (method_get_version E st)) =
             trace st @ (if cookies (session st) = [] then [LoginCall] else []) @ rest \<and>
           LoginCall \<notin> set rest) \<and>
   (\<exists>rest. trace (snd (method_remove_torrent E hash_str with_data st)) =
             trace st @ (if cookies (session st) = [] then [LoginCall] else []) @ rest \<and>
           LoginCall \<notin> set rest)"
  using auth_query_fresh [of st E] auth_query_authenticated [of st E]
  by (simp add: method_get_version_trace method_remove_torrent_def)

text \<open>
  \<open>method_get_torrents\<close> makes one call of \<open>auth_query_json\<close> for the listing and one for
  every torrent asked for. On a session with a cookie none of them calls \<open>login\<close>.
\<close>

lemma auth_query_json_authenticated:
  assumes "cookies (session st) \<noteq> []" and "auth_query_json E data files st = (r, st')"
  shows "session st' = session st \<and>
         (\<exists>rest. trace st' = trace st @ rest \<and> LoginCall \<notin> set rest)"
proof -
  obtain r2 st2 where q: "query E data files st = (r2, st2)" by (cases "query E data files st")
  from assms q have "st' = st2"
    by (auto simp add: auth_query_json_def split: sum.splits)
  with query_cases [OF q] query_trace [OF q] show ?thesis by simp
qed

lemma get_torrents_loop_authenticated:
  assumes "cookies (session st) \<noteq> []"
    and "get_torrents_loop E normalize_field_names hashes items torrents_info st = (r, st')"
  shows "session st' = session st \<and>
         (\<exists>rest. trace st' = trace st @ rest \<and> LoginCall \<notin> set rest)"
  using assms
proof (induction items arbitrary: torrents_info st)
  case Nil
  then show ?case by simp
next
  case (Cons item items)
  let ?doc = "\<lambda>h. build_params (PStr (str ''get_torrent'')) (Some [(str ''action_params'', h)])"
  show ?case
  proof (cases "\<exists>torrent_data h. normalize_field_names torrent_fields_map item = Inr torrent_data \<and>
                  subscript torrent_data (str ''hash'') = Inr h")
    case False
    with Cons.prems(2) have "st' = st"
      by (auto split: sum.splits)
    then show ?thesis by simp
  next
    case True
    then obtain torrent_data h where
      n: "normalize_field_names torrent_fields_map item = Inr torrent_data" and
      h: "subscript torrent_data (str ''hash'') = Inr h"
      by blast
    show ?thesis
    proof (cases "hash_selected hashes h")
      case False
      with n h Cons.prems(2) have
        "get_torrents_loop E normalize_field_names hashes items torrents_info st = (r, st')"
        by simp
      from Cons.IH [OF Cons.prems(1) this] show ?thesis .
    next
      case True
      obtain a st1 where a: "auth_query_json E (?doc h) None st = (a, st1)"
        by (cases "auth_query_json E (?doc h) None st")
      from auth_query_json_authenticated [OF Cons.prems(1) a] obtain rest1 where
        s1: "session st1 = session st" and
        t1: "trace st1 = trace st @ rest1" "LoginCall \<notin> set rest1"
        by blast
      show ?thesis
      proof (cases "\<exists>info. get_torrents_loop E normalize_field_names hashes items info st1 = (r, st')")
        case False
        with n h True a Cons.prems(2) have "st' = st1"
          by (auto split: sum.splits)
        with s1 t1 show ?thesis by simp
      next
        case True
        then obtain info where
          "get_torrents_loop E normalize_field_names hashes items info st1 = (r, st')"
          by blast
        from Cons.IH [OF _ this] Cons.prems(1) s1 obtain rest2 where
          "session st' = session st1" "trace st' = trace st1 @ rest2" "LoginCall \<notin> set rest2"
          by auto
        with s1 t1 show ?thesis by simp
      qed
    qed
  qed
qed

lemma method_get_torrents_authenticated:
  assumes "cookies (session st) \<noteq> []"
  shows "\<exists>rest. trace (snd (method_get_torrents E normalize_field_names hashes st)) = trace st @ rest \<and>
                LoginCall \<notin> set rest"
proof -
  let ?doc = "build_params (PStr (str ''get_torrents'')) (Some [(str ''reverse'', PStr (str ''true''))])"
  obtain a st1 where a: "auth_query_json E ?doc None st = (a, st1)"
    by (cases "auth_query_json E ?doc None st")
  from auth_query_json_authenticated [OF assms a] obtain rest1 where
    s1: "session st1 = session st" and
    t1: "trace st1 = trace st @ rest1" "LoginCall \<notin> set rest1"
    by blast
  show ?thesis
  proof (cases "\<exists>items. snd (method_get_torrents E normalize_field_names hashes st) =
                  snd (get_torrents_loop E normalize_field_names hashes items [] st1)")
    case False
    with a have "snd (method_get_torrents E normalize_field_names hashes st) = st1"
      by (auto simp add: method_get_torrents_def split: sum.splits)
    with t1 show ?thesis by simp
  next
    case True
    then obtain items where
      e: "snd (method_get_torrents E normalize_field_names hashes st) =
          snd (get_torrents_loop E normalize_field_names hashes items [] st1)"
      by blast
    obtain r st2 where l: "get_torrents_loop E normalize_field_names hashes items [] st1 = (r, st2)"
      by (cases "get_torrents_loop E normalize_field_names hashes items [] st1")
    from get_torrents_loop_authenticated [OF _ l] assms s1 obtain rest2 where
      "trace st2 = trace st1 @ rest2" "LoginCall \<notin> set rest2"
      by auto
    with e l t1 show ?thesis by simp
  qed
qed

text \<open>
  On a fresh session, with a client that sends a cookie, the listing of two torrents
  calls \<open>login\<close> once, before its four requests.
\<close>

lemma method_get_torrents_with_cookie:
  "map (\<lambda>e. e = LoginCall)
     (trace (snd (method_get_torrents (listing_server (Some [(str ''SID'', str ''abc'')]))
                    copy_fields None fresh))) =
   [True, False, False, False, False]"
  by code_simp

text \<open>
  C7 at a client that answers the login with \<open>Ok.\<close> and no cookie, and lists two
  torrents: \<open>login\<close> stores the empty jar, the session stays without a cookie, and
  \<open>method_get_torrents\<close>, the first operation on a fresh session, calls \<open>login\<close> three
  times, once before each of its requests.
\<close>

theorem method_get_torrents_logs_in_again:
  "cookies (session fresh) = [] \<and>
   map (\<lambda>e. e = LoginCall)
     (trace (snd (method_get_torrents (listing_server (Some [])) copy_fields None fresh))) =
   [True, False, False, True, False, False, True, False, False] \<and>
   count_list (trace (snd (method_get_torrents (listing_server (Some [])) copy_fields None fresh)))
     LoginCall = 3 \<and>
   cookies (session (snd (method_get_torrents (listing_server (Some [])) copy_fields None fresh))) = []"
  by code_simp

text \<open>
  What \<open>login\<close> does in general: it raises \<open>QBittorrentRPCException\<close> and leaves the
  session as it was, or it returns and has stored the cookie jar of an answer with status
  200 and the body \<open>Ok.\<close>. The jar it stores is any jar that is not \<open>None\<close>.
\<close>

lemma login_outcomes:
  assumes "login E st = (r, st')"
  shows "r = Inl QBittorrentRPCException \<and> session st' = session st \<or>
         r = Inr () \<and>
         (\<exists>(result::response) jar. resp_text result = str ''Ok.'' \<and>
            resp_cookies result = Some jar \<and> status_code result = 200 \<and>
            session st' = (session st)\<lparr>cookies := jar\<rparr>)"
  using login_cases [OF assms] by blast

text \<open>
  C8 at an answer with the body \<open>Ok.\<close> and an empty cookie jar: \<open>login\<close> returns without
  raising, and the session has no cookie.
\<close>

theorem login_accepts_missing_token:
  "fst (login (server (Some [])) fresh) = Inr () \<and>
   cookies (session (snd (login (server (Some [])) fresh))) = []"
  by (simp add: login_def server_def fresh_def init_def query_def build_request_def
      get_request_url_def login_params_def build_params_def api_map_def str_def)

subsection \<open>Adding a torrent\<close>

lemma login_requests:
  assumes "login E st = (r, st')"
  shows "\<exists>new. trace st' = trace st @ LoginCall # new \<and>
           (\<forall>req. Http req \<in> set new \<longrightarrow>
              build_request E (session st) (login_params (session st)) None = Inr req)"
proof -
  obtain q st1 where q: "query E (login_params (session st)) None (st\<lparr>trace := trace st @ [LoginCall]\<rparr>) = (q, st1)"
    by (cases "query E (login_params (session st)) None (st\<lparr>trace := trace st @ [LoginCall]\<rparr>)")
  from query_cases [OF q] have
    "\<exists>new. trace st1 = trace st @ LoginCall # new \<and>
           (\<forall>req. Http req \<in> set new \<longrightarrow>
              build_request E (session st) (login_params (session st)) None = Inr req)"
    by auto
  moreover from assms q have "trace st' = trace st1"
    by (auto simp add: login_def split: sum.splits if_splits)
  ultimately show ?thesis by simp
qed

lemma auth_query_requests:
  assumes "auth_query E data files st = (r, st')"
  shows "\<exists>new. trace st' = trace st @ new \<and>
           (\<forall>req. Http req \<in> set new \<longrightarrow>
              build_request E (session st) (login_params (session st)) None = Inr req \<or>
              (\<exists>self. build_request E self data files = Inr req)) \<and>
           (\<forall>response. r = Inr response \<longrightarrow>
              (\<exists>req self. new \<noteq> [] \<and> last new = Http req \<and>
                 build_request E self data files = Inr req))"
proof -
  have own: "\<exists>new. trace st2 = trace st1 @ new \<and>
           (\<forall>req. Http req \<in> set new \<longrightarrow> (\<exists>self. build_request E self data files = Inr req)) \<and>
           (\<forall>response. r2 = Inr response \<longrightarrow>
              (\<exists>req self. new \<noteq> [] \<and> last new = Http req \<and>
                 build_request E self data files = Inr req))"
    if "query E data files st1 = (r2, st2)" for st1 r2 st2
    using query_cases [OF that] by auto
  show ?thesis
  proof (cases "cookies (session st) = []")
    case False
    with assms have "query E data files st = (r, st')" by (simp add: auth_query_def)
    from own [OF this] show ?thesis by blast
  next
    case True
    obtain r1 st1 where l: "login E st = (r1, st1)" by (cases "login E st")
    from login_requests [OF l] obtain new1 where
      n1: "trace st1 = trace st @ LoginCall # new1"
        "\<forall>req. Http req \<in> set new1 \<longrightarrow>
           build_request E (session st) (login_params (session st)) None = Inr req"
      by blast
    show ?thesis
    proof (cases r1)
      case (Inl e)
      with True l assms have "r = Inl e" "st' = st1" by (simp_all add: auth_query_def)
      with n1 show ?thesis by auto
    next
      case (Inr u)
      with True l assms have "query E data files st1 = (r, st')" by (simp add: auth_query_def)
      from own [OF this] obtain new2 where
        n2: "trace st' = trace st1 @ new2"
          "\<forall>req. Http req \<in> set new2 \<longrightarrow> (\<exists>self. build_request E self data files = Inr req)"
          "\<forall>response. r = Inr response \<longrightarrow>
              (\<exists>req self. new2 \<noteq> [] \<and> last new2 = Http req \<and>
                 build_request E self data files = Inr req)"
        by blast
      have "trace st' = trace st @ (LoginCall # new1 @ new2)"
        using n1(1) n2(1) by simp
      moreover have "\<forall>req. Http req \<in> set (LoginCall # new1 @ new2) \<longrightarrow>
              build_request E (session st) (login_params (session st)) None = Inr req \<or>
              (\<exists>self. build_request E self data files = Inr req)"
        using n1(2) n2(2) by auto
      moreover have "\<forall>response. r = Inr response \<longrightarrow>
              (\<exists>req self. LoginCall # new1 @ new2 \<noteq> [] \<and> last (LoginCall # new1 @ new2) = Http req \<and>
                 build_request E self data files = Inr req)"
        using n2(3) by auto
      ultimately show ?thesis by blast
    qed
  qed
qed

lemma file_data_eq:
  "file_data content download_to =
     (str ''torrents'', content) #
     (case download_to of None \<Rightarrow> [] | Some path \<Rightarrow> [(str ''savepath'', PStr path)])"
  by (simp add: file_data_def str_def split: option.splits)

lemma build_request_add_torrent:
  assumes "build_request E self (build_params (PStr (str ''add_torrent'')) None) (Some fd) = Inr req"
  shows "req_method req = POST \<and> req_data req = None \<and> req_files req = Some fd"
  using assms
  by (auto simp add: build_request_def build_params_def str_def split: sum.splits)

lemma build_request_login:
  assumes "build_request E self (login_params self') None = Inr req"
  shows "req_method req = POST \<and> req_files req = None"
  using assms
  by (auto simp add: build_request_def login_params_def build_params_def str_def split: sum.splits)

text \<open>
  C9, as the code has it. Every request that \<open>method_add_torrent\<close> issues is a POST. One
  that carries files carries no \<open>data\<close>, and its \<open>files\<close> hold the content of the torrent
  under \<open>torrents\<close>, followed, when a download path is given, by the path under
  \<open>savepath\<close>. A call that returns a response ends with such a request.
\<close>

theorem method_add_torrent_request:
  assumes "method_add_torrent E torrent download_to params st = (r, st')"
  shows "\<exists>new. trace st' = trace st @ new \<and>
           (\<forall>req. Http req \<in> set new \<longrightarrow>
              req_method req = POST \<and>
              (req_files req = None \<or>
               req_data req = None \<and>
               (\<exists>content. map_of torrent (str ''torrent'') = Some content \<and>
                  req_files req =
                    Some ((str ''torrents'', content) #
                          (case download_to of
                             None \<Rightarrow> []
                           | Some path \<Rightarrow> [(str ''savepath'', PStr path)]))))) \<and>
           (\<forall>response. r = Inr response \<longrightarrow>
              (\<exists>req. new \<noteq> [] \<and> last new = Http req \<and> req_files req \<noteq> None))"
proof (cases "map_of torrent (str ''torrent'')")
  case None
  with assms have "st' = st" "r = Inl KeyError" by (simp_all add: method_add_torrent_def)
  then show ?thesis by simp
next
  case (Some content)
  let ?doc = "build_params (PStr (str ''add_torrent'')) None"
  let ?fd = "file_data content download_to"
  from Some assms have "auth_query E ?doc (Some ?fd) st = (r, st')"
    by (simp add: method_add_torrent_def)
  from auth_query_requests [OF this] obtain new where
    n: "trace st' = trace st @ new"
      "\<forall>req. Http req \<in> set new \<longrightarrow>
         build_request E (session st) (login_params (session st)) None = Inr req \<or>
         (\<exists>self. build_request E self ?doc (Some ?fd) = Inr req)"
      "\<forall>response. r = Inr response \<longrightarrow>
         (\<exists>req self. new \<noteq> [] \<and> last new = Http req \<and>
            build_request E self ?doc (Some ?fd) = Inr req)"
    by blast
  have a: "req_method req = POST \<and>
           (req_files req = None \<or>
            req_data req = None \<and>
            (\<exists>content. map_of torrent (str ''torrent'') = Some content \<and>
               req_files req =
                 Some ((str ''torrents'', content) #
                       (case download_to of
                          None \<Rightarrow> []
                        | Some path \<Rightarrow> [(str ''savepath'', PStr path)]))))"
    if "Http req \<in> set new" for req
    using n(2) that Some build_request_login build_request_add_torrent file_data_eq
    by metis
  have b: "\<exists>req. new \<noteq> [] \<and> last new = Http req \<and> req_files req \<noteq> None"
    if "r = Inr response" for response
    using n(3) that build_request_add_torrent by fastforce
  from n(1) a b show ?thesis by blast
qed

theorem method_add_torrent_request_witness:
  "fst (method_add_torrent (server (Some [])) [(str ''torrent'', PBytes [100, 56, 58])]
          (Some (str ''/downloads'')) None authenticated) =
     Inr \<lparr>status_code = 200, resp_text = str ''Ok.'', resp_cookies = Some [],
          resp_json = Inr (PList [])\<rparr> \<and>
   (\<exists>new.
      trace (snd (method_add_torrent (server (Some [])) [(str ''torrent'', PBytes [100, 56, 58])]
                    (Some (str ''/downloads'')) None authenticated)) =
        trace authenticated @ new \<and>
      new \<noteq> [] \<and>
      (\<exists>req. last new = Http req \<and> req_method req = POST \<and> req_data req = None \<and>
         req_files req =
           Some [(str ''torrents'', PBytes [100, 56, 58]),
                 (str ''savepath'', PStr (str ''/downloads''))]))"
proof -
  let ?t = "[(str ''torrent'', PBytes [100, 56, 58])]"
  let ?M = "method_add_torrent (server (Some [])) ?t (Some (str ''/downloads'')) None authenticated"
  have r: "fst ?M =
     Inr \<lparr>status_code = 200, resp_text = str ''Ok.'', resp_cookies = Some [],
          resp_json = Inr (PList [])\<rparr>"
    by (simp add: method_add_torrent_def auth_query_def query_def build_request_def
        get_request_url_def build_params_def api_map_def server_def fresh_def authenticated_def
        init_def file_data_def str_def)
  have c: "map_of ?t (str ''torrent'') = Some (PBytes [100, 56, 58])"
    by simp
  have h: "?M = (fst ?M, snd ?M)"
    by simp
  from method_add_torrent_request [OF h] obtain new where
    n: "trace (snd ?M) = trace authenticated @ new"
      "\<forall>req. Http req \<in> set new \<longrightarrow>
         req_method req = POST \<and>
         (req_files req = None \<or>
          req_data req = None \<and>
          (\<exists>content. map_of ?t (str ''torrent'') = Some content \<and>
             req_files req =
               Some ((str ''torrents'', content) #
                     (case Some (str ''/downloads'') of
                        None \<Rightarrow> []
                      | Some path \<Rightarrow> [(str ''savepath'', PStr path)]))))"
      "\<forall>response. fst ?M = Inr response \<longrightarrow>
         (\<exists>req. new \<noteq> [] \<and> last new = Http req \<and> req_files req \<noteq> None)"
    by blast
  from n(3) r obtain req where
    q: "new \<noteq> []" "last new = Http req" "req_files req \<noteq> None"
    by auto
  from q(1,2) have "Http req \<in> set new"
    by (metis last_in_set)
  with n(2) q(3) c have "req_method req = POST \<and> req_data req = None \<and>
      req_files req =
        Some [(str ''torrents'', PBytes [100, 56, 58]),
              (str ''savepath'', PStr (str ''/downloads''))]"
    by auto
  with n(1) q r show ?thesis by blast
qed

text \<open>
  The download path does not travel as a form field: the request has no \<open>data\<close>, and the
  path is an entry of \<open>files\<close>, beside the content of the torrent.
\<close>

theorem method_add_torrent_savepath_in_files:
  "trace (snd (method_add_torrent (server (Some [])) [(str ''torrent'', PBytes [100, 56, 58])]
                 (Some (str ''/downloads'')) None authenticated)) =
     [Http \<lparr>req_method = POST, req_url = str ''http://localhost:8080/command/upload'',
            req_cookies = Some [(str ''SID'', str ''abc'')],
            req_data = None,
            req_files = Some [(str ''torrents'', PBytes [100, 56, 58]),
                              (str ''savepath'', PStr (str ''/downloads''))]\<rparr>]"
  by (simp add: method_add_torrent_def auth_query_def query_def build_request_def
      get_request_url_def build_params_def api_map_def server_def fresh_def authenticated_def
      init_def file_data_def str_def)

end
